theory Spec2Isabelle
  imports Complex_Main
begin

section \<open>Exceptions\<close>

text \<open>
  Every \<^verbatim>\<open>raise\<close> of the program is a value of \<open>exn\<close>; a computation that may raise
  returns \<open>exn + 'a\<close>, with \<open>Inl\<close> for the exception.
\<close>

datatype exn =
    KeyError string
  | IndexError
  | ValueError
  | BadZipFile
  | AttributeError string
  | MergeError
  | ClientError string
  | OtherError string

section \<open>Tables\<close>

text \<open>
  A cell of a pandas table is a string, a number, missing (\<^verbatim>\<open>NaN\<close>, \<^verbatim>\<open>None\<close>, \<^verbatim>\<open>NaT\<close>) or
  one of the two infinite floats (\<^verbatim>\<open>inf\<close>, \<^verbatim>\<open>-inf\<close>), which a quotient by zero gives.
  Numbers are real numbers: Python's integers and floats are not told apart, and rounding
  and the sign of a zero are left out. A row gives the cell under each column label, in
  column order (an \<^verbatim>\<open>OrderedDict\<close>, a \<^verbatim>\<open>pd.Series\<close>); a DataFrame is its column labels and
  its rows.
\<close>

datatype cell = S string | N real | NaN | PosInf | NegInf

type_synonym row = "(string \<times> cell) list"

record frame =
  columns :: "string list"
  rows :: "row list"

definition cell_at :: "row \<Rightarrow> string \<Rightarrow> cell" where
  "cell_at r c = (case map_of r c of None \<Rightarrow> NaN | Some v \<Rightarrow> v)"

text \<open>\<^verbatim>\<open>df[c]\<close>: the cells of column \<open>c\<close>, or \<^verbatim>\<open>KeyError\<close> when there is no such column.\<close>

definition column :: "frame \<Rightarrow> string \<Rightarrow> exn + cell list" where
  "column df c =
     (if c \<in> set (columns df) then Inr (map (\<lambda>r. cell_at r c) (rows df)) else Inl (KeyError c))"

text \<open>
  \<^verbatim>\<open>df[c].iat[0]\<close> and \<^verbatim>\<open>df[c].iat[-1]\<close>: the column lookup comes first, then the
  position, which raises \<^verbatim>\<open>IndexError\<close> on a table without rows.
\<close>

definition iat_first :: "frame \<Rightarrow> string \<Rightarrow> exn + cell" where
  "iat_first df c =
     (case column df c of
        Inl e \<Rightarrow> Inl e
      | Inr [] \<Rightarrow> Inl IndexError
      | Inr (v # vs) \<Rightarrow> Inr v)"

definition iat_last :: "frame \<Rightarrow> string \<Rightarrow> exn + cell" where
  "iat_last df c =
     (case column df c of
        Inl e \<Rightarrow> Inl e
      | Inr [] \<Rightarrow> Inl IndexError
      | Inr (v # vs) \<Rightarrow> Inr (last (v # vs)))"

text \<open>
  Arithmetic on cells, as numpy's floats have it: a missing operand gives a missing
  result, and so do the difference of two equal infinities, the quotient of two
  infinities and \<^verbatim>\<open>0 / 0\<close>; any other quotient by zero is infinite, with the sign of the
  dividend.
\<close>

definition cell_sub :: "cell \<Rightarrow> cell \<Rightarrow> cell" where
  "cell_sub a b =
     (case a of
        N x \<Rightarrow> (case b of N y \<Rightarrow> N (x - y) | PosInf \<Rightarrow> NegInf | NegInf \<Rightarrow> PosInf | _ \<Rightarrow> NaN)
      | PosInf \<Rightarrow> (case b of N y \<Rightarrow> PosInf | NegInf \<Rightarrow> PosInf | _ \<Rightarrow> NaN)
      | NegInf \<Rightarrow> (case b of N y \<Rightarrow> NegInf | PosInf \<Rightarrow> NegInf | _ \<Rightarrow> NaN)
      | _ \<Rightarrow> NaN)"

definition cell_div :: "cell \<Rightarrow> cell \<Rightarrow> cell" where
  "cell_div a b =
     (case a of
        N x \<Rightarrow>
          (case b of
             N y \<Rightarrow>
               if y \<noteq> 0 then N (x / y)
               else if 0 < x then PosInf else if x < 0 then NegInf else NaN
           | PosInf \<Rightarrow> N 0
           | NegInf \<Rightarrow> N 0
           | _ \<Rightarrow> NaN)
      | PosInf \<Rightarrow> (case b of N y \<Rightarrow> if 0 \<le> y then PosInf else NegInf | _ \<Rightarrow> NaN)
      | NegInf \<Rightarrow> (case b of N y \<Rightarrow> if 0 \<le> y then NegInf else PosInf | _ \<Rightarrow> NaN)
      | _ \<Rightarrow> NaN)"

text \<open>
  A function that fills an \<^verbatim>\<open>OrderedDict\<close> \<open>d\<close> by assignments \<^verbatim>\<open>d[key] = expr\<close> in
  order, each expression reading the group and the entries made so far, and stops at the
  first exception.
\<close>

fun assign_all :: "(string \<times> (frame \<Rightarrow> row \<Rightarrow> exn + cell)) list \<Rightarrow> frame \<Rightarrow> row \<Rightarrow> exn + row" where
  "assign_all [] grp d = Inr d"
| "assign_all (step # steps) grp d =
     (case snd step grp d of
        Inl e \<Rightarrow> Inl e
      | Inr v \<Rightarrow> assign_all steps grp (d @ [(fst step, v)]))"

text \<open>A list comprehension whose expression may raise stops at the first exception.\<close>

fun map_exn :: "('a \<Rightarrow> exn + 'b) \<Rightarrow> 'a list \<Rightarrow> exn + 'b list" where
  "map_exn f [] = Inr []"
| "map_exn f (x # xs) =
     (case f x of
        Inl e \<Rightarrow> Inl e
      | Inr y \<Rightarrow> (case map_exn f xs of Inl e \<Rightarrow> Inl e | Inr ys \<Rightarrow> Inr (y # ys)))"

section \<open>Retry Executor\<close>

text \<open>
  What \<^verbatim>\<open>wrapped\<close> does that a caller can observe: each call of the wrapped function,
  each call of \<^verbatim>\<open>report\<close> (with the callable it was made on and its arguments) and each
  \<^verbatim>\<open>time.sleep\<close>. Delays are seconds.
\<close>

datatype 'v event =
    Attempt
  | ReportRetry 'v exn nat
  | ReportFinal 'v "exn list"
  | Sleep nat

text \<open>
  The loop \<^verbatim>\<open>for delay in itertools.chain(delays, [None])\<close> of \<^verbatim>\<open>wrapped\<close>. The wrapped
  function, applied to its arguments, is a state transformer \<open>f\<close> on the outside world; the
  predicate \<open>exc\<close> says which exceptions \<^verbatim>\<open>except exception\<close> catches. The result is the
  value returned or the exception raised, the world after the last call and the events in
  order. \<open>Inr None\<close> stands for the loop running out without \<^verbatim>\<open>return\<close> or \<^verbatim>\<open>raise\<close>.
\<close>

fun retry_loop ::
  "(exn \<Rightarrow> bool) \<Rightarrow> ('w \<Rightarrow> (exn + 'a) \<times> 'w) \<Rightarrow> 'v \<Rightarrow> nat option list \<Rightarrow> exn list \<Rightarrow> 'w
    \<Rightarrow> (exn + 'a option) \<times> 'w \<times> 'v event list" where
  "retry_loop exc f report [] problems w = (Inr None, w, [])"
| "retry_loop exc f report (delay # rest) problems w =
     (case f w of
        (Inr v, w') \<Rightarrow> (Inr (Some v), w', [Attempt])
      | (Inl problem, w') \<Rightarrow>
          if \<not> exc problem then (Inl problem, w', [Attempt])
          else
            (case delay of
               None \<Rightarrow> (Inl problem, w', [Attempt, ReportFinal report (problems @ [problem])])
             | Some d \<Rightarrow>
                 (case retry_loop exc f report rest (problems @ [problem]) w' of
                    (res, w'', evs) \<Rightarrow>
                      (res, w'', Attempt # ReportRetry report problem d # Sleep d # evs))))"

text \<open>
  \<^verbatim>\<open>wrapped(*args, **kwargs)\<close>: \<^verbatim>\<open>report = kwargs['report']\<close> comes first and raises
  \<^verbatim>\<open>KeyError\<close> when the caller passed no such keyword; then the loop runs
  \<^verbatim>\<open>func(*args, **kwargs)\<close>.
\<close>

definition wrapped ::
  "nat list \<Rightarrow> (exn \<Rightarrow> bool) \<Rightarrow> ('args \<Rightarrow> (string \<rightharpoonup> 'v) \<Rightarrow> 'w \<Rightarrow> (exn + 'a) \<times> 'w)
    \<Rightarrow> 'args \<Rightarrow> (string \<rightharpoonup> 'v) \<Rightarrow> 'w \<Rightarrow> (exn + 'a option) \<times> 'w \<times> 'v event list" where
  "wrapped delays exc func args kwargs w =
     (case kwargs ''report'' of
        None \<Rightarrow> (Inl (KeyError ''report''), w, [])
      | Some report \<Rightarrow>
          retry_loop exc (func args kwargs) report (map Some delays @ [None]) [] w)"

text \<open>The defaults of \<^verbatim>\<open>retry\<close>: the delays, and \<^verbatim>\<open>exception=Exception\<close>.\<close>

definition default_delays :: "nat list" where
  "default_delays = [0, 1, 5, 30, 180, 600, 3600]"

definition any_exception :: "exn \<Rightarrow> bool" where
  "any_exception e = True"

text \<open>
  \<open>failures f n w\<close>: the first \<open>n\<close> successive calls of \<open>f\<close> from \<open>w\<close> all raise; it gives
  the exceptions in order and the world after them.
\<close>

fun failures :: "('w \<Rightarrow> (exn + 'a) \<times> 'w) \<Rightarrow> nat \<Rightarrow> 'w \<Rightarrow> (exn list \<times> 'w) option" where
  "failures f 0 w = Some ([], w)"
| "failures f (Suc n) w =
     (case f w of
        (Inr v, w') \<Rightarrow> None
      | (Inl e, w') \<Rightarrow>
          (case failures f n w' of None \<Rightarrow> None | Some (es, w'') \<Rightarrow> Some (e # es, w'')))"

text \<open>The events of one caught failure that is retried after delay \<open>d\<close>.\<close>

definition retried :: "'v \<Rightarrow> exn \<times> nat \<Rightarrow> 'v event list" where
  "retried report p = [Attempt, ReportRetry report (fst p) (snd p), Sleep (snd p)]"

text \<open>
  An outcome of the wrapped function that the loop answers with another attempt: an
  exception that \<^verbatim>\<open>except exception\<close> catches.
\<close>

definition is_retryable :: "(exn \<Rightarrow> bool) \<Rightarrow> exn + 'a \<Rightarrow> bool" where
  "is_retryable exc r = (case r of Inl e \<Rightarrow> exc e | Inr v \<Rightarrow> False)"

text \<open>
  The report \<^verbatim>\<open>"retryable failed definitely:"\<close> at the end of a run whose last attempt had
  outcome \<open>r\<close> after the caught failures \<open>es\<close>.
\<close>

definition final_report :: "'v \<Rightarrow> (exn \<Rightarrow> bool) \<Rightarrow> exn list \<Rightarrow> exn + 'a \<Rightarrow> 'v event list" where
  "final_report report exc es r =
     (case r of Inl e \<Rightarrow> if exc e then [ReportFinal report (es @ [e])] else [] | Inr v \<Rightarrow> [])"

text \<open>
  An operation for the examples: every call raises a \<^verbatim>\<open>ClientError\<close> that carries the
  number of earlier calls (as that many \<open>x\<close>), and counts the call in the world.
\<close>

definition flaky :: "unit \<Rightarrow> (string \<rightharpoonup> string) \<Rightarrow> nat \<Rightarrow> (exn + unit) \<times> nat" where
  "flaky args kwargs n = (Inl (ClientError (replicate n CHR ''x'')), Suc n)"

section \<open>Forward fill of a pandas Series\<close>

text \<open>
  The values of a Series that may hold missing entries (\<^verbatim>\<open>NaN\<close>, \<^verbatim>\<open>NaT\<close>) are options.
  \<^verbatim>\<open>fillna(method='ffill', limit=n)\<close> replaces a missing value by the last valid one
  before it, for at most \<open>n\<close> consecutive missing values after a valid one; \<^verbatim>\<open>ffill()\<close> is
  the same without a limit (\<open>None\<close>). Leading missing values stay missing. \<open>prev\<close> is the last
  valid value seen and \<open>cnt\<close> the number of missing values since.
\<close>

fun ffill_from :: "nat option \<Rightarrow> 'a option \<Rightarrow> nat \<Rightarrow> 'a option list \<Rightarrow> 'a option list" where
  "ffill_from lmt prev cnt [] = []"
| "ffill_from lmt prev cnt (Some v # xs) = Some v # ffill_from lmt (Some v) 0 xs"
| "ffill_from lmt prev cnt (None # xs) =
     (if (case lmt of None \<Rightarrow> True | Some n \<Rightarrow> cnt < n) then prev else None)
       # ffill_from lmt prev (Suc cnt) xs"

definition ffill :: "nat option \<Rightarrow> ('k \<times> 'a option) list \<Rightarrow> ('k \<times> 'a option) list" where
  "ffill lmt s = zip (map fst s) (ffill_from lmt None 0 (map snd s))"

section \<open>Active-Interval Sweep\<close>

text \<open>
  \<^verbatim>\<open>get_active_trips_df(trip_times)\<close>. \<open>trip_times\<close> is the list of the rows'
  \<open>(start_time, end_time)\<close>, in seconds (of any linearly ordered type of numbers). A Series is the list of its \<open>(label, value)\<close>
  entries in order.

  \<^verbatim>\<open>pd.Series(v, index)\<close> has the value \<open>v\<close> at every label of \<open>index\<close>; \<^verbatim>\<open>pd.concat\<close>
  appends the two Series.
\<close>

definition const_series :: "int \<Rightarrow> 't list \<Rightarrow> ('t \<times> int) list" where
  "const_series v idx = map (\<lambda>t. (t, v)) idx"

text \<open>
  \<^verbatim>\<open>.groupby(level=0, sort=True).sum()\<close>: one entry per distinct label, labels ascending,
  with the sum of the values under that label.
\<close>

definition groupby_level0_sum :: "('t::linorder \<times> int) list \<Rightarrow> ('t \<times> int) list" where
  "groupby_level0_sum s =
     map (\<lambda>k. (k, sum_list (map snd (filter (\<lambda>p. fst p = k) s)))) (sort (remdups (map fst s)))"

text \<open>\<^verbatim>\<open>.cumsum()\<close>: running totals, in the order of the entries.\<close>

fun cumsum_from :: "int \<Rightarrow> ('t \<times> int) list \<Rightarrow> ('t \<times> int) list" where
  "cumsum_from acc [] = []"
| "cumsum_from acc (p # ps) = (fst p, acc + snd p) # cumsum_from (acc + snd p) ps"

definition cumsum :: "('t \<times> int) list \<Rightarrow> ('t \<times> int) list" where
  "cumsum s = cumsum_from 0 s"

text \<open>
  The chain of \<^verbatim>\<open>get_active_trips_df\<close> on the two columns. A missing label has no group
  in \<^verbatim>\<open>groupby\<close>, so the columns arrive here without their missing entries.
\<close>

definition active_trips_series :: "'t::linorder list \<Rightarrow> 't list \<Rightarrow> ('t \<times> int option) list" where
  "active_trips_series start_times end_times =
     ffill None
       (map (\<lambda>p. (fst p, Some (snd p)))
         (cumsum (groupby_level0_sum
           (const_series 1 start_times @ const_series (- 1) end_times))))"

definition get_active_trips_df :: "('t::linorder \<times> 't) list \<Rightarrow> ('t \<times> int option) list" where
  "get_active_trips_df trip_times =
     active_trips_series (map fst trip_times) (map snd trip_times)"

text \<open>
  The specification's reading of the result, for comparison with the code. \<open>active_at\<close>:
  the number of intervals begun at or before \<open>t\<close> less the number ended at or before \<open>t\<close>
  (half-open intervals). \<open>hold_forward\<close>: a Series read as a right-continuous step function,
  the value at an instant is that of the last entry at or before it.
\<close>

definition active_at :: "('t::linorder \<times> 't) list \<Rightarrow> 't \<Rightarrow> int" where
  "active_at trip_times t =
     int (length (filter (\<lambda>p. fst p \<le> t) trip_times))
       - int (length (filter (\<lambda>p. snd p \<le> t) trip_times))"

definition hold_forward :: "('t::linorder \<times> int option) list \<Rightarrow> 't \<Rightarrow> int option" where
  "hold_forward s t =
     (case filter (\<lambda>p. fst p \<le> t) s of [] \<Rightarrow> None | q # qs \<Rightarrow> snd (last (q # qs)))"

section \<open>Trip Rollup Builder: the summary of one trip\<close>

text \<open>
  \<^verbatim>\<open>my_agg(group)\<close> of \<^verbatim>\<open>compute_trip_stats_partridge\<close>. \<open>group\<close> holds the rows of one
  trip, sorted by stop sequence. \<^verbatim>\<open>geometry_by_stop\<close> (built by gtfstk, outside this
  repository) is a dictionary from stop id to a projected point, and \<open>distance\<close> the distance
  of two points in meters; a stop id without a point raises \<^verbatim>\<open>KeyError\<close>.
\<close>

definition key_text :: "cell \<Rightarrow> string" where
  "key_text c = (case c of S s \<Rightarrow> s | _ \<Rightarrow> ''nan'')"

text \<open>\<^verbatim>\<open>group.zone_name.nunique()\<close> counts the distinct values that are not missing.\<close>

definition nunique :: "cell list \<Rightarrow> nat" where
  "nunique vs = length (remdups (filter (\<lambda>v. v \<noteq> NaN) vs))"

text \<open>\<^verbatim>\<open>group.zone_name.isnull().sum()\<close> counts the rows whose value is missing.\<close>

definition isnull_sum :: "cell list \<Rightarrow> nat" where
  "isnull_sum vs = length (filter (\<lambda>v. v = NaN) vs)"

definition stop_dist :: "(cell \<Rightarrow> 'p option) \<Rightarrow> ('p \<Rightarrow> 'p \<Rightarrow> real) \<Rightarrow> cell \<Rightarrow> cell \<Rightarrow> exn + real" where
  "stop_dist geometry_by_stop distance a b =
     (case geometry_by_stop a of
        None \<Rightarrow> Inl (KeyError (key_text a))
      | Some p \<Rightarrow>
          (case geometry_by_stop b of
             None \<Rightarrow> Inl (KeyError (key_text b))
           | Some q \<Rightarrow> Inr (distance p q)))"

definition my_agg_steps ::
  "(cell \<Rightarrow> 'p option) \<Rightarrow> ('p \<Rightarrow> 'p \<Rightarrow> real) \<Rightarrow> (string \<times> (frame \<Rightarrow> row \<Rightarrow> exn + cell)) list" where
  "my_agg_steps geometry_by_stop distance =
     [(''route_id'', \<lambda>grp d. iat_first grp ''route_id''),
      (''route_short_name'', \<lambda>grp d. iat_first grp ''route_short_name''),
      (''route_long_name'', \<lambda>grp d. iat_first grp ''route_long_name''),
      (''agency_id'', \<lambda>grp d. iat_first grp ''agency_id''),
      (''agency_name'', \<lambda>grp d. iat_first grp ''agency_name''),
      (''route_type'', \<lambda>grp d. iat_first grp ''route_type''),
      (''direction_id'', \<lambda>grp d. iat_first grp ''direction_id''),
      (''shape_id'', \<lambda>grp d. iat_first grp ''shape_id''),
      (''num_stops'', \<lambda>grp d. Inr (N (real (length (rows grp))))),
      (''start_time'', \<lambda>grp d. iat_first grp ''departure_time''),
      (''end_time'', \<lambda>grp d. iat_last grp ''departure_time''),
      (''start_stop_id'', \<lambda>grp d. iat_first grp ''stop_id''),
      (''end_stop_id'', \<lambda>grp d. iat_last grp ''stop_id''),
      (''start_stop_code'', \<lambda>grp d. iat_first grp ''stop_code''),
      (''end_stop_code'', \<lambda>grp d. iat_last grp ''stop_code''),
      (''start_stop_name'', \<lambda>grp d. iat_first grp ''stop_name''),
      (''end_stop_name'', \<lambda>grp d. iat_last grp ''stop_name''),
      (''start_stop_lat'', \<lambda>grp d. iat_first grp ''stop_lat''),
      (''start_stop_lon'', \<lambda>grp d. iat_first grp ''stop_lon''),
      (''end_stop_lat'', \<lambda>grp d. iat_last grp ''stop_lat''),
      (''end_stop_lon'', \<lambda>grp d. iat_last grp ''stop_lon''),
      (''start_zone'', \<lambda>grp d. iat_first grp ''zone_name''),
      (''end_zone'', \<lambda>grp d. iat_last grp ''zone_name''),
      (''num_zones'', \<lambda>grp d.
          (case column grp ''zone_name'' of
             Inl e \<Rightarrow> Inl e | Inr vs \<Rightarrow> Inr (N (real (nunique vs))))),
      (''num_zones_missing'', \<lambda>grp d.
          (case column grp ''zone_name'' of
             Inl e \<Rightarrow> Inl e | Inr vs \<Rightarrow> Inr (N (real (isnull_sum vs))))),
      (''is_loop'', \<lambda>grp d.
          (case stop_dist geometry_by_stop distance
                  (cell_at d ''start_stop_id'') (cell_at d ''end_stop_id'') of
             Inl e \<Rightarrow> Inl e
           | Inr dst \<Rightarrow> Inr (N (if dst < 400 then 1 else 0)))),
      (''duration'', \<lambda>grp d.
          Inr (cell_div (cell_sub (cell_at d ''end_time'') (cell_at d ''start_time'')) (N 3600)))]"

definition my_agg :: "(cell \<Rightarrow> 'p option) \<Rightarrow> ('p \<Rightarrow> 'p \<Rightarrow> real) \<Rightarrow> frame \<Rightarrow> exn + row" where
  "my_agg geometry_by_stop distance grp =
     assign_all (my_agg_steps geometry_by_stop distance) grp []"

text \<open>
  A trip for the examples: two stops \<open>a\<close> and \<open>b\<close> on a line, at 0 m and at 400 m.
\<close>

definition two_stop_trip :: frame where
  "two_stop_trip =
     \<lparr>columns = [''route_id'', ''trip_id'', ''direction_id'', ''shape_id'', ''route_short_name'',
        ''route_long_name'', ''route_type'', ''agency_id'', ''agency_name'', ''stop_sequence'',
        ''departure_time'', ''stop_id'', ''shape_dist_traveled'', ''stop_name'', ''stop_lat'',
        ''stop_lon'', ''stop_code'', ''zone_name''],
      rows =
        [[(''route_id'', S ''r1''), (''trip_id'', S ''t1''), (''stop_sequence'', N 1),
          (''departure_time'', N 25200), (''stop_id'', S ''a''), (''zone_name'', S ''z'')],
         [(''route_id'', S ''r1''), (''trip_id'', S ''t1''), (''stop_sequence'', N 2),
          (''departure_time'', N 28800), (''stop_id'', S ''b'')]]\<rparr>"

definition line_geometry :: "cell \<Rightarrow> real option" where
  "line_geometry c = (if c = S ''a'' then Some 0 else if c = S ''b'' then Some 400 else None)"

definition line_distance :: "real \<Rightarrow> real \<Rightarrow> real" where
  "line_distance p q = \<bar>p - q\<bar>"

definition two_stop_trip_stat :: row where
  "two_stop_trip_stat =
     [(''route_id'', S ''r1''), (''route_short_name'', NaN),
      (''route_long_name'', NaN), (''agency_id'', NaN),
      (''agency_name'', NaN), (''route_type'', NaN),
      (''direction_id'', NaN), (''shape_id'', NaN), (''num_stops'', N 2),
      (''start_time'', N 25200), (''end_time'', N 28800),
      (''start_stop_id'', S ''a''), (''end_stop_id'', S ''b''),
      (''start_stop_code'', NaN), (''end_stop_code'', NaN),
      (''start_stop_name'', NaN), (''end_stop_name'', NaN),
      (''start_stop_lat'', NaN), (''start_stop_lon'', NaN),
      (''end_stop_lat'', NaN), (''end_stop_lon'', NaN),
      (''start_zone'', S ''z''), (''end_zone'', NaN), (''num_zones'', N 1),
      (''num_zones_missing'', N 1), (''is_loop'', N 0),
      (''duration'', N 1)]"

section \<open>Table operations of pandas\<close>

text \<open>Sequencing of computations that may raise.\<close>

definition exn_bind :: "exn + 'a \<Rightarrow> ('a \<Rightarrow> exn + 'b) \<Rightarrow> exn + 'b" where
  "exn_bind m f = (case m of Inl e \<Rightarrow> Inl e | Inr x \<Rightarrow> f x)"

text \<open>The first label of \<open>cs\<close> that is no column of the table, if any.\<close>

definition missing_column :: "frame \<Rightarrow> string list \<Rightarrow> string option" where
  "missing_column df cs =
     (case filter (\<lambda>c. c \<notin> set (columns df)) cs of [] \<Rightarrow> None | c # _ \<Rightarrow> Some c)"

text \<open>\<^verbatim>\<open>df[[c1, c2, ...]]\<close>: the table of the listed columns.\<close>

definition select_cols :: "frame \<Rightarrow> string list \<Rightarrow> exn + frame" where
  "select_cols df cs =
     (case missing_column df cs of
        Some c \<Rightarrow> Inl (KeyError c)
      | None \<Rightarrow> Inr \<lparr>columns = cs, rows = map (\<lambda>r. map (\<lambda>c. (c, cell_at r c)) cs) (rows df)\<rparr>)"

text \<open>
  \<^verbatim>\<open>left.merge(right, how=..., on=...)\<close>, inner or left. Without \<^verbatim>\<open>on\<close> the key
  columns are the labels the two tables share, and \<^verbatim>\<open>MergeError\<close> is raised when they
  share none. The rows follow the order of the left table; a left row without a match is
  dropped by an inner merge and kept with missing cells by a left merge. Every merge of
  this program has the shared labels as its keys, so no column is renamed by a suffix.
\<close>

definition joined_row :: "string list \<Rightarrow> string list \<Rightarrow> row \<Rightarrow> row \<Rightarrow> row" where
  "joined_row left_cols extra_cols l r =
     map (\<lambda>c. (c, cell_at l c)) left_cols @ map (\<lambda>c. (c, cell_at r c)) extra_cols"

definition merge :: "bool \<Rightarrow> string list option \<Rightarrow> frame \<Rightarrow> frame \<Rightarrow> exn + frame" where
  "merge how_left on_cols left right =
     (let keys = (case on_cols of
                    None \<Rightarrow> filter (\<lambda>c. c \<in> set (columns right)) (columns left)
                  | Some cs \<Rightarrow> cs);
          extra = filter (\<lambda>c. c \<notin> set keys) (columns right)
      in if keys = [] then Inl MergeError
         else
           (case missing_column left keys of
              Some c \<Rightarrow> Inl (KeyError c)
            | None \<Rightarrow>
                (case missing_column right keys of
                   Some c \<Rightarrow> Inl (KeyError c)
                 | None \<Rightarrow>
                     Inr \<lparr>columns = columns left @ extra,
                          rows = concat (map
                            (\<lambda>l. let ms = filter (\<lambda>r. list_all (\<lambda>c. cell_at l c = cell_at r c) keys)
                                             (rows right)
                                 in if ms = [] \<and> how_left
                                    then [joined_row (columns left) extra l []]
                                    else map (joined_row (columns left) extra l) ms)
                            (rows left))\<rparr>)))"

text \<open>
  The order of cells in a sort: numbers by value, between the two infinite floats, strings
  by their characters, missing cells last. A column of this program holds numbers or
  strings, not both; the model puts numbers first.
\<close>

fun str_le :: "string \<Rightarrow> string \<Rightarrow> bool" where
  "str_le [] t = True"
| "str_le (a # s) [] = False"
| "str_le (a # s) (b # t) =
     ((of_char a :: nat) < of_char b \<or> (a = b \<and> str_le s t))"

definition cell_rank :: "cell \<Rightarrow> nat" where
  "cell_rank a = (case a of NegInf \<Rightarrow> 0 | N x \<Rightarrow> 1 | PosInf \<Rightarrow> 2 | S s \<Rightarrow> 3 | NaN \<Rightarrow> 4)"

definition cell_le :: "cell \<Rightarrow> cell \<Rightarrow> bool" where
  "cell_le a b =
     (case (a, b) of
        (N x, N y) \<Rightarrow> x \<le> y
      | (S s, S t) \<Rightarrow> str_le s t
      | _ \<Rightarrow> cell_rank a \<le> cell_rank b)"

fun row_le :: "string list \<Rightarrow> row \<Rightarrow> row \<Rightarrow> bool" where
  "row_le [] a b = True"
| "row_le (c # cs) a b =
     (if cell_at a c = cell_at b c then row_le cs a b else cell_le (cell_at a c) (cell_at b c))"

fun insert_by :: "('a \<Rightarrow> 'a \<Rightarrow> bool) \<Rightarrow> 'a \<Rightarrow> 'a list \<Rightarrow> 'a list" where
  "insert_by le x [] = [x]"
| "insert_by le x (y # ys) = (if le x y then x # y # ys else y # insert_by le x ys)"

definition sort_by :: "('a \<Rightarrow> 'a \<Rightarrow> bool) \<Rightarrow> 'a list \<Rightarrow> 'a list" where
  "sort_by le xs = foldr (insert_by le) xs []"

text \<open>\<^verbatim>\<open>df.sort_values([c1, c2, ...])\<close>; rows with equal keys keep their order.\<close>

definition sort_values :: "string list \<Rightarrow> frame \<Rightarrow> exn + frame" where
  "sort_values cs df =
     (case missing_column df cs of
        Some c \<Rightarrow> Inl (KeyError c)
      | None \<Rightarrow> Inr (df\<lparr>rows := sort_by (row_le cs) (rows df)\<rparr>))"

text \<open>
  \<^verbatim>\<open>df.groupby(key)\<close>: the groups in ascending order of their key, each with the rows
  of that key in the table's order; rows with a missing key belong to no group. The
  grouped table is kept with its groups.
\<close>

record grouped =
  obj :: frame
  by_key :: string
  groups :: "(cell \<times> frame) list"

definition groupby :: "frame \<Rightarrow> string \<Rightarrow> exn + grouped" where
  "groupby df key =
     (case column df key of
        Inl e \<Rightarrow> Inl e
      | Inr ks \<Rightarrow>
          Inr \<lparr>obj = df, by_key = key,
               groups = map (\<lambda>k. (k, df\<lparr>rows := filter (\<lambda>r. cell_at r key = k) (rows df)\<rparr>))
                          (sort_by cell_le (remdups (filter (\<lambda>k. k \<noteq> NaN) ks)))\<rparr>)"

text \<open>
  \<^verbatim>\<open>g.apply(func)\<close> for a function that returns a \<^verbatim>\<open>pd.Series\<close>: a table indexed by the
  group keys, with one row per group and the labels of the returned Series as columns.
  The columns exist only through the calls of \<open>func\<close>: without a group \<open>func\<close> is never
  called and pandas returns \<^verbatim>\<open>DataFrame(index=keys)\<close>, a table with no column and an
  unnamed index. An indexed table is the index name, the index and the table.
\<close>

definition apply_groups :: "(frame \<Rightarrow> exn + row) \<Rightarrow> grouped \<Rightarrow> exn + string \<times> cell list \<times> frame" where
  "apply_groups func g =
     (case map_exn (\<lambda>kg. func (snd kg)) (groups g) of
        Inl e \<Rightarrow> Inl e
      | Inr [] \<Rightarrow> Inr (''index'', [], \<lparr>columns = [], rows = []\<rparr>)
      | Inr (d # ds) \<Rightarrow>
          Inr (by_key g, map fst (groups g), \<lparr>columns = map fst d, rows = d # ds\<rparr>))"

text \<open>
  \<^verbatim>\<open>df[c] = values\<close> for values in the order of the rows: a new column goes last.
\<close>

definition set_column :: "string \<Rightarrow> cell list \<Rightarrow> frame \<Rightarrow> frame" where
  "set_column c vs df =
     \<lparr>columns = (if c \<in> set (columns df) then columns df else columns df @ [c]),
      rows = map (\<lambda>rv. (c, snd rv) # fst rv) (zip (rows df) vs)\<rparr>"

text \<open>\<^verbatim>\<open>reset_index()\<close>: the index becomes the first column, under its name.\<close>

definition reset_index :: "string \<times> cell list \<times> frame \<Rightarrow> frame" where
  "reset_index h =
     (case h of (name, idx, df) \<Rightarrow>
        \<lparr>columns = name # columns df,
         rows = map (\<lambda>kr. (name, fst kr) # snd kr) (zip idx (rows df))\<rparr>)"

text \<open>\<^verbatim>\<open>df[cols] = df[cols].applymap(func)\<close>\<close>

definition applymap_cols :: "(cell \<Rightarrow> cell) \<Rightarrow> string list \<Rightarrow> frame \<Rightarrow> exn + frame" where
  "applymap_cols func cs df =
     (case missing_column df cs of
        Some c \<Rightarrow> Inl (KeyError c)
      | None \<Rightarrow>
          Inr (df\<lparr>rows := map (\<lambda>r. map (\<lambda>c. (c, func (cell_at r c))) cs @ r) (rows df)\<rparr>))"

text \<open>\<^verbatim>\<open>df[c] = df[a] / df[b]\<close>: both columns are looked up, \<open>a\<close> first.\<close>

definition set_quotient :: "string \<Rightarrow> string \<Rightarrow> string \<Rightarrow> frame \<Rightarrow> exn + frame" where
  "set_quotient c a b df =
     exn_bind (column df a) (\<lambda>xs.
     exn_bind (column df b) (\<lambda>ys.
       Inr (set_column c (map (\<lambda>xy. cell_div (fst xy) (snd xy)) (zip xs ys)) df)))"

text \<open>
  Column reductions that skip missing cells. \<open>numbers\<close> are the finite numbers of a
  column; an infinite cell decides a maximum, a minimum or a sum, and the sum of both
  infinities is missing.
\<close>

definition numbers :: "cell list \<Rightarrow> real list" where
  "numbers vs = List.map_filter (\<lambda>v. case v of N x \<Rightarrow> Some x | _ \<Rightarrow> None) vs"

definition col_max :: "cell list \<Rightarrow> cell" where
  "col_max vs =
     (if PosInf \<in> set vs then PosInf
      else
        (case numbers vs of
           [] \<Rightarrow> if NegInf \<in> set vs then NegInf else NaN
         | x # xs \<Rightarrow> N (fold max xs x)))"

definition col_min :: "cell list \<Rightarrow> cell" where
  "col_min vs =
     (if NegInf \<in> set vs then NegInf
      else
        (case numbers vs of
           [] \<Rightarrow> if PosInf \<in> set vs then PosInf else NaN
         | x # xs \<Rightarrow> N (fold min xs x)))"

definition col_sum :: "cell list \<Rightarrow> cell" where
  "col_sum vs =
     (if PosInf \<in> set vs then (if NegInf \<in> set vs then NaN else PosInf)
      else if NegInf \<in> set vs then NegInf
      else N (sum_list (numbers vs)))"

definition col_count :: "cell list \<Rightarrow> cell" where
  "col_count vs = N (real (length (filter (\<lambda>v. v \<noteq> NaN) vs)))"
section \<open>Trip Rollup Builder\<close>

text \<open>
  A partridge feed is its tables. What gtfstk supplies is a parameter of the model:
  \<^verbatim>\<open>build_geometry_by_stop\<close> with the distance of two projected points,
  \<^verbatim>\<open>timestr_to_seconds\<close> in both directions, and \<^verbatim>\<open>get_peak_indices\<close>. Times in seconds
  are numbers or missing, never infinite: gtfstk's \<^verbatim>\<open>timestr_to_seconds\<close> gives nothing
  else, and the model reads the times of a route under this condition.
\<close>

record feed =
  trips :: frame
  routes :: frame
  agency :: frame
  stop_times :: frame
  stops :: frame

record 'p externals =
  build_geometry_by_stop :: "feed \<Rightarrow> cell \<Rightarrow> 'p option"
  point_distance :: "'p \<Rightarrow> 'p \<Rightarrow> real"
  timestr_to_seconds :: "cell \<Rightarrow> cell"
  seconds_to_timestr :: "cell \<Rightarrow> cell"
  get_peak_indices :: "real list \<Rightarrow> int list \<Rightarrow> nat \<times> nat"

text \<open>The chain of merges and the sort that give \<open>f\<close>.\<close>

definition joined_trip_rows :: "feed \<Rightarrow> frame \<Rightarrow> exn + frame" where
  "joined_trip_rows fd zones =
     exn_bind (select_cols (trips fd) [''route_id'', ''trip_id'', ''direction_id'', ''shape_id'']) (\<lambda>t.
     exn_bind (select_cols (routes fd) [''route_id'', ''route_short_name'', ''route_long_name'',
                                         ''route_type'', ''agency_id'']) (\<lambda>r.
     exn_bind (merge False None t r) (\<lambda>f1.
     exn_bind (select_cols (agency fd) [''agency_id'', ''agency_name'']) (\<lambda>a.
     exn_bind (merge True (Some [''agency_id'']) f1 a) (\<lambda>f2.
     exn_bind (merge False None f2 (stop_times fd)) (\<lambda>f3.
     exn_bind (select_cols (stops fd) [''stop_id'', ''stop_name'', ''stop_lat'', ''stop_lon'',
                                        ''stop_code'']) (\<lambda>s.
     exn_bind (merge False None f3 s) (\<lambda>f4.
     exn_bind (merge True None f4 zones) (\<lambda>f5.
       sort_values [''trip_id'', ''stop_sequence''] f5)))))))))"

text \<open>
  \<^verbatim>\<open>g.shape_dist_traveled.max()\<close>: the attribute is looked up on the grouped table and
  raises \<^verbatim>\<open>AttributeError\<close> when \<open>f\<close> has no such column.
\<close>

definition grouped_max :: "grouped \<Rightarrow> string \<Rightarrow> exn + cell list" where
  "grouped_max g c =
     (if c \<in> set (columns (obj g))
      then Inr (map (\<lambda>kg. col_max (map (\<lambda>r. cell_at r c) (rows (snd kg)))) (groups g))
      else Inl (AttributeError c))"

definition compute_trip_stats_partridge :: "'p externals \<Rightarrow> feed \<Rightarrow> frame \<Rightarrow> exn + frame" where
  "compute_trip_stats_partridge ext fd zones =
     exn_bind (joined_trip_rows fd zones) (\<lambda>f.
     exn_bind (groupby f ''trip_id'') (\<lambda>g.
     exn_bind (apply_groups (my_agg (build_geometry_by_stop ext fd) (point_distance ext)) g) (\<lambda>h.
     exn_bind (grouped_max g ''shape_dist_traveled'') (\<lambda>dists.
     exn_bind (Inr (reset_index (fst h, fst (snd h), set_column ''distance'' dists (snd (snd h))))) (\<lambda>h1.
     exn_bind (column h1 ''distance'') (\<lambda>ds.
     exn_bind (column h1 ''duration'') (\<lambda>us.
     exn_bind (Inr (set_column ''speed''
                 (map (\<lambda>du. cell_div (cell_div (fst du) (snd du)) (N 1000)) (zip ds us)) h1)) (\<lambda>h2.
       applymap_cols (seconds_to_timestr ext) [''start_time'', ''end_time''] h2))))))))"

section \<open>Headway Analyzer\<close>

text \<open>
  The headway part of \<^verbatim>\<open>compute_route_stats(group)\<close>. The rows of \<open>group\<close> are trip
  summaries of one route whose \<open>start_time\<close> is already in seconds (a number or missing:
  \<^verbatim>\<open>timestr_to_seconds\<close> gives nothing else). For a direction,
  \<^verbatim>\<open>group[group['direction_id'] == direction]['start_time'].values\<close> is filtered to the
  closed window and sorted; a missing start time compares false and drops out.
\<close>

definition direction_stimes :: "real \<Rightarrow> real \<Rightarrow> row list \<Rightarrow> real \<Rightarrow> real list" where
  "direction_stimes headway_start headway_end grp direction =
     sort (List.map_filter
       (\<lambda>r. case cell_at r ''start_time'' of
               N stime \<Rightarrow> if headway_start \<le> stime \<and> stime \<le> headway_end then Some stime else None
             | _ \<Rightarrow> None)
       (filter (\<lambda>r. cell_at r ''direction_id'' = N direction) grp))"

text \<open>\<^verbatim>\<open>np.diff\<close>: the differences of consecutive elements.\<close>

fun np_diff :: "real list \<Rightarrow> real list" where
  "np_diff (x # y # xs) = (y - x) # np_diff (y # xs)"
| "np_diff xs = []"

text \<open>
  \<^verbatim>\<open>for direction in [0, 1]: ... headways = np.concatenate([headways, np.diff(stimes)])\<close>
\<close>

definition headways :: "real \<Rightarrow> real \<Rightarrow> row list \<Rightarrow> real list" where
  "headways headway_start headway_end grp =
     np_diff (direction_stimes headway_start headway_end grp 0)
       @ np_diff (direction_stimes headway_start headway_end grp 1)"

definition np_max :: "real list \<Rightarrow> real" where
  "np_max xs = fold max xs (hd xs)"

definition np_min :: "real list \<Rightarrow> real" where
  "np_min xs = fold min xs (hd xs)"

definition np_mean :: "real list \<Rightarrow> real" where
  "np_mean xs = sum_list xs / real (length xs)"

text \<open>
  The three entries \<open>max_headway\<close>, \<open>min_headway\<close>, \<open>mean_headway\<close>, in minutes, in the
  order of the assignments; \<^verbatim>\<open>np.nan\<close> when there is no headway.
\<close>

definition headway_stats :: "real \<Rightarrow> real \<Rightarrow> row list \<Rightarrow> cell \<times> cell \<times> cell" where
  "headway_stats headway_start headway_end grp =
     (let hw = headways headway_start headway_end grp in
      if hw \<noteq> [] then (N (np_max hw / 60), N (np_min hw / 60), N (np_mean hw / 60))
      else (NaN, NaN, NaN))"




section \<open>Route Rollup Builder\<close>

text \<open>
  \<^verbatim>\<open>compute_route_stats(group)\<close>, the summary of the trips of one route. The headway
  window arrives as two cells, the results of \<^verbatim>\<open>timestr_to_seconds\<close>, which are seconds
  or missing; a missing bound compares false with every start time, which leaves no
  headway.
\<close>

definition headway_cells :: "cell \<Rightarrow> cell \<Rightarrow> frame \<Rightarrow> exn + cell \<times> cell \<times> cell" where
  "headway_cells headway_start headway_end grp =
     exn_bind (column grp ''direction_id'') (\<lambda>ds.
     exn_bind (column grp ''start_time'') (\<lambda>ss.
       Inr (case (headway_start, headway_end) of
              (N hs, N he) \<Rightarrow> headway_stats hs he (rows grp)
            | _ \<Rightarrow> (NaN, NaN, NaN))))"

text \<open>
  The peak: \<^verbatim>\<open>get_active_trips_df(group[['start_time', 'end_time']])\<close>, then
  \<^verbatim>\<open>times, counts = active_trips.index.values, active_trips.values\<close> and
  \<^verbatim>\<open>start, end = get_peak_indices(times, counts)\<close>; reading an array past its end raises
  \<^verbatim>\<open>IndexError\<close>.
\<close>

definition array_at :: "'a list \<Rightarrow> nat \<Rightarrow> exn + 'a" where
  "array_at xs i = (if i < length xs then Inr (xs ! i) else Inl IndexError)"

definition peak_cells :: "'p externals \<Rightarrow> frame \<Rightarrow> exn + cell \<times> cell \<times> cell" where
  "peak_cells ext grp =
     exn_bind (select_cols grp [''start_time'', ''end_time'']) (\<lambda>tt.
     exn_bind (column tt ''start_time'') (\<lambda>ss.
     exn_bind (column tt ''end_time'') (\<lambda>es.
       let active_trips = active_trips_series (numbers ss) (numbers es);
           times = map fst active_trips;
           counts = map (\<lambda>p. case snd p of None \<Rightarrow> 0 | Some c \<Rightarrow> c) active_trips;
           se = get_peak_indices ext times counts
       in exn_bind (array_at counts (fst se)) (\<lambda>peak_num_trips.
          exn_bind (array_at times (fst se)) (\<lambda>peak_start_time.
          exn_bind (array_at times (snd se)) (\<lambda>peak_end_time.
            Inr (N (real_of_int peak_num_trips), N peak_start_time, N peak_end_time)))))))"

text \<open>
  \<^verbatim>\<open>group[c].any()\<close>: some cell is a number other than zero, an infinite float or a
  non-empty string.
\<close>

definition col_any :: "cell list \<Rightarrow> bool" where
  "col_any vs =
     list_ex (\<lambda>v. case v of N x \<Rightarrow> x \<noteq> 0 | S s \<Rightarrow> s \<noteq> [] | NaN \<Rightarrow> False | _ \<Rightarrow> True) vs"

definition compute_route_stats_steps ::
  "'p externals \<Rightarrow> cell \<Rightarrow> cell \<Rightarrow> (string \<times> (frame \<Rightarrow> row \<Rightarrow> exn + cell)) list" where
  "compute_route_stats_steps ext headway_start headway_end =
     [(''route_short_name'', \<lambda>grp d. iat_first grp ''route_short_name''),
      (''route_long_name'', \<lambda>grp d. iat_first grp ''route_long_name''),
      (''agency_id'', \<lambda>grp d. iat_first grp ''agency_id''),
      (''agency_name'', \<lambda>grp d. iat_first grp ''agency_name''),
      (''route_type'', \<lambda>grp d. iat_first grp ''route_type''),
      (''num_trips'', \<lambda>grp d. Inr (N (real (length (rows grp))))),
      (''num_trip_starts'', \<lambda>grp d.
          exn_bind (column grp ''start_time'') (\<lambda>vs. Inr (col_count vs))),
      (''num_trip_ends'', \<lambda>grp d.
          exn_bind (column grp ''end_time'') (\<lambda>vs.
            Inr (N (real (length (filter (\<lambda>v. case v of N x \<Rightarrow> x < 24 * 3600 | NegInf \<Rightarrow> True | _ \<Rightarrow> False) vs)))))),
      (''is_loop'', \<lambda>grp d.
          exn_bind (column grp ''is_loop'') (\<lambda>vs. Inr (N (if col_any vs then 1 else 0)))),
      (''is_bidirectional'', \<lambda>grp d.
          exn_bind (column grp ''direction_id'') (\<lambda>vs.
            Inr (N (if 1 < length (remdups vs) then 1 else 0)))),
      (''start_time'', \<lambda>grp d.
          exn_bind (column grp ''start_time'') (\<lambda>vs. Inr (col_min vs))),
      (''end_time'', \<lambda>grp d.
          exn_bind (column grp ''end_time'') (\<lambda>vs. Inr (col_max vs))),
      (''max_headway'', \<lambda>grp d.
          exn_bind (headway_cells headway_start headway_end grp) (\<lambda>h. Inr (fst h))),
      (''min_headway'', \<lambda>grp d.
          exn_bind (headway_cells headway_start headway_end grp) (\<lambda>h. Inr (fst (snd h)))),
      (''mean_headway'', \<lambda>grp d.
          exn_bind (headway_cells headway_start headway_end grp) (\<lambda>h. Inr (snd (snd h)))),
      (''peak_num_trips'', \<lambda>grp d.
          exn_bind (peak_cells ext grp) (\<lambda>p. Inr (fst p))),
      (''peak_start_time'', \<lambda>grp d.
          exn_bind (peak_cells ext grp) (\<lambda>p. Inr (fst (snd p)))),
      (''peak_end_time'', \<lambda>grp d.
          exn_bind (peak_cells ext grp) (\<lambda>p. Inr (snd (snd p)))),
      (''service_distance'', \<lambda>grp d.
          exn_bind (column grp ''distance'') (\<lambda>vs. Inr (col_sum vs))),
      (''service_duration'', \<lambda>grp d.
          exn_bind (column grp ''duration'') (\<lambda>vs. Inr (col_sum vs))),
      (''start_stop_id'', \<lambda>grp d. iat_first grp ''start_stop_id''),
      (''end_stop_id'', \<lambda>grp d. iat_first grp ''end_stop_id''),
      (''start_stop_lat'', \<lambda>grp d. iat_first grp ''start_stop_lat''),
      (''start_stop_lon'', \<lambda>grp d. iat_first grp ''start_stop_lon''),
      (''end_stop_lat'', \<lambda>grp d. iat_first grp ''end_stop_lat''),
      (''end_stop_lon'', \<lambda>grp d. iat_first grp ''end_stop_lon''),
      (''num_stops'', \<lambda>grp d. iat_first grp ''num_stops''),
      (''start_zone'', \<lambda>grp d. iat_first grp ''start_zone''),
      (''end_zone'', \<lambda>grp d. iat_first grp ''end_zone''),
      (''num_zones'', \<lambda>grp d. iat_first grp ''num_zones''),
      (''num_zones_missing'', \<lambda>grp d. iat_first grp ''num_zones_missing'')]"

definition compute_route_stats :: "'p externals \<Rightarrow> cell \<Rightarrow> cell \<Rightarrow> frame \<Rightarrow> exn + row" where
  "compute_route_stats ext headway_start headway_end grp =
     assign_all (compute_route_stats_steps ext headway_start headway_end) grp []"

text \<open>
  \<^verbatim>\<open>compute_route_stats_base_partridge(trip_stats_subset, headway_start_time,
  headway_end_time)\<close>; the defaults of the two times are \<^verbatim>\<open>'07:00:00'\<close> and
  \<^verbatim>\<open>'19:00:00'\<close>.
\<close>

definition route_stats_columns :: "string list" where
  "route_stats_columns =
     [''route_id'', ''route_short_name'', ''agency_id'', ''agency_name'',
      ''route_long_name'', ''route_type'', ''num_trips'', ''num_trip_starts'',
      ''num_trip_ends'', ''is_loop'', ''is_bidirectional'', ''start_time'',
      ''end_time'', ''max_headway'', ''min_headway'', ''mean_headway'',
      ''peak_num_trips'', ''peak_start_time'', ''peak_end_time'',
      ''service_distance'', ''service_duration'', ''service_speed'',
      ''mean_trip_distance'', ''mean_trip_duration'', ''start_stop_id'',
      ''end_stop_id'', ''start_stop_lat'', ''start_stop_lon'', ''end_stop_lat'',
      ''end_stop_lon'', ''num_stops'', ''start_zone'', ''end_zone'',
      ''num_zones'', ''num_zones_missing'']"

definition compute_route_stats_base_partridge ::
  "'p externals \<Rightarrow> frame \<Rightarrow> string \<Rightarrow> string \<Rightarrow> exn + frame" where
  "compute_route_stats_base_partridge ext trip_stats_subset headway_start_time headway_end_time =
     exn_bind (applymap_cols (timestr_to_seconds ext) [''start_time'', ''end_time'']
                 trip_stats_subset) (\<lambda>f.
     exn_bind (groupby f ''route_id'') (\<lambda>grouped_f.
     exn_bind (apply_groups
                 (compute_route_stats ext (timestr_to_seconds ext (S headway_start_time))
                    (timestr_to_seconds ext (S headway_end_time)))
                 grouped_f) (\<lambda>applied.
     exn_bind (set_quotient ''service_speed'' ''service_distance'' ''service_duration''
                 (reset_index applied)) (\<lambda>g1.
     exn_bind (set_quotient ''mean_trip_distance'' ''service_distance'' ''num_trips'' g1) (\<lambda>g2.
     exn_bind (set_quotient ''mean_trip_duration'' ''service_duration'' ''num_trips'' g2) (\<lambda>g3.
     exn_bind (applymap_cols (seconds_to_timestr ext)
                 [''start_time'', ''end_time'', ''peak_start_time'', ''peak_end_time''] g3) (\<lambda>g4.
     exn_bind (column g4 ''service_speed'') (\<lambda>speeds.
       select_cols (set_column ''service_speed'' (map (\<lambda>v. cell_div v (N 1000)) speeds) g4)
         route_stats_columns))))))))"

text \<open>The default arguments of the route builder.\<close>

definition route_stats_of :: "'p externals \<Rightarrow> frame \<Rightarrow> exn + frame" where
  "route_stats_of ext ts = compute_route_stats_base_partridge ext ts ''07:00:00'' ''19:00:00''"

section \<open>Empty inputs of the two builders, for the examples\<close>

text \<open>
  Stand-ins for what gtfstk supplies: points on a line, times already in seconds, and a
  peak at the first instant.
\<close>

definition line_externals :: "real externals" where
  "line_externals =
     \<lparr>build_geometry_by_stop = (\<lambda>fd. line_geometry), point_distance = line_distance,
      timestr_to_seconds = (\<lambda>c. c), seconds_to_timestr = (\<lambda>c. c),
      get_peak_indices = (\<lambda>times counts. (0, 0))\<rparr>"

text \<open>A feed whose tables have their columns and no rows, and a zone table.\<close>

definition empty_feed :: feed where
  "empty_feed =
     \<lparr>trips = \<lparr>columns = [''route_id'', ''trip_id'', ''direction_id'', ''shape_id''], rows = []\<rparr>,
      routes = \<lparr>columns = [''route_id'', ''route_short_name'', ''route_long_name'',
                            ''route_type'', ''agency_id''], rows = []\<rparr>,
      agency = \<lparr>columns = [''agency_id'', ''agency_name''], rows = []\<rparr>,
      stop_times = \<lparr>columns = [''trip_id'', ''stop_sequence'', ''departure_time'', ''stop_id'',
                                ''shape_dist_traveled''], rows = []\<rparr>,
      stops = \<lparr>columns = [''stop_id'', ''stop_name'', ''stop_lat'', ''stop_lon'', ''stop_code''],
               rows = []\<rparr>\<rparr>"

definition some_zones :: frame where
  "some_zones =
     \<lparr>columns = [''stop_code'', ''zone_name''],
      rows = [[(''stop_code'', S ''100''), (''zone_name'', S ''z1'')]]\<rparr>"

text \<open>A table of trip summaries with every column of the trip builder's output and no row.\<close>

definition empty_trip_stats :: frame where
  "empty_trip_stats =
     \<lparr>columns =
        [''trip_id'', ''route_id'', ''route_short_name'',
         ''route_long_name'', ''agency_id'', ''agency_name'',
         ''route_type'', ''direction_id'', ''shape_id'', ''num_stops'',
         ''start_time'', ''end_time'', ''start_stop_id'', ''end_stop_id'',
         ''start_stop_code'', ''end_stop_code'', ''start_stop_name'',
         ''end_stop_name'', ''start_stop_lat'', ''start_stop_lon'',
         ''end_stop_lat'', ''end_stop_lon'', ''start_zone'', ''end_zone'',
         ''num_zones'', ''num_zones_missing'', ''is_loop'', ''duration'',
         ''distance'', ''speed''],
      rows = []\<rparr>"

section \<open>Incremental Scheduler\<close>

text \<open>
  A calendar date is its day number (\<^verbatim>\<open>date.toordinal()\<close>). The text of a date in the
  format \<^verbatim>\<open>%Y-%m-%d\<close> is identified with the date, \<^verbatim>\<open>strftime\<close> and \<^verbatim>\<open>strptime\<close> being
  inverse to each other; \<open>NaT_str\<close> is the text \<^verbatim>\<open>'NaT'\<close> that \<^verbatim>\<open>strftime\<close> gives for a
  missing date (pandas before 1.0, the only versions that accept
  \<^verbatim>\<open>pd.DatetimeIndex(start=, end=, freq=)\<close>). A file name is such a text followed by
  \<^verbatim>\<open>'.zip'\<close> (\<open>Zip\<close>: the snapshot names \<^verbatim>\<open>YYYY-mm-dd.zip\<close> of the docstrings and the
  names the scheduler builds itself), or a name whose part before the first dot is not a
  date in this format (\<open>OtherFile\<close>). A name whose part before the first dot is a date
  and which is written otherwise, such as \<^verbatim>\<open>'2024-01-01.tar.gz'\<close> or \<^verbatim>\<open>'2024-1-1.zip'\<close>,
  has no representation here.
\<close>

datatype date_str = DateStr int | NaT_str

datatype file_name = Zip date_str | OtherFile string

text \<open>The day number of a calendar date, as Python's \<^verbatim>\<open>datetime\<close> computes it.\<close>

definition is_leap :: "int \<Rightarrow> bool" where
  "is_leap y = (y mod 4 = 0 \<and> (y mod 100 \<noteq> 0 \<or> y mod 400 = 0))"

definition days_before_year :: "int \<Rightarrow> int" where
  "days_before_year y = (y - 1) * 365 + (y - 1) div 4 - (y - 1) div 100 + (y - 1) div 400"

definition days_before_month :: "int \<Rightarrow> int \<Rightarrow> int" where
  "days_before_month y m =
     [0, 31, 59, 90, 120, 151, 181, 212, 243, 273, 304, 334] ! nat (m - 1)
       + (if 2 < m \<and> is_leap y then 1 else 0)"

definition ymd :: "int \<Rightarrow> int \<Rightarrow> int \<Rightarrow> int" where
  "ymd y m d = days_before_year y + days_before_month y m + d"

text \<open>
  \<^verbatim>\<open>parse_date(file_name)\<close>: the text before the first dot, read as a date; \<^verbatim>\<open>strptime\<close>
  raises \<^verbatim>\<open>ValueError\<close> on a text that is no date in the format, which is the case of
  \<^verbatim>\<open>'NaT'\<close> and of the part before the first dot of every \<open>OtherFile\<close> name.
\<close>

definition parse_date :: "file_name \<Rightarrow> exn + int \<times> date_str" where
  "parse_date file_name =
     (case file_name of Zip (DateStr d) \<Rightarrow> Inr (d, DateStr d) | _ \<Rightarrow> Inl ValueError)"

text \<open>
  \<^verbatim>\<open>get_dates_without_output(valid_files, existing_output_files)\<close>; an existing output
  file is the pair of its date text and its kind.
\<close>

definition get_dates_without_output ::
  "file_name list \<Rightarrow> (date_str \<times> string) list \<Rightarrow> exn + date_str list" where
  "get_dates_without_output valid_files existing_output_files =
     map_exn (\<lambda>file. case parse_date file of Inl e \<Rightarrow> Inl e | Inr p \<Rightarrow> Inr (snd p))
       (filter
         (\<lambda>file. file \<notin> set (map (\<lambda>g. Zip (fst g))
                     (filter (\<lambda>g. snd g = ''route_stats'') existing_output_files)))
         valid_files)"

text \<open>
  A \<^verbatim>\<open>defaultdict(list)\<close>, keys in insertion order. \<open>dd_append\<close> is
  \<^verbatim>\<open>dd[k].append(v)\<close>, \<open>dd_get\<close> reads \<^verbatim>\<open>dd[k]\<close> (the empty list under a new key) and
  \<open>dd_set\<close> is \<^verbatim>\<open>dd[k] = vs\<close>.
\<close>

definition dd_get :: "('k \<times> 'v list) list \<Rightarrow> 'k \<Rightarrow> 'v list" where
  "dd_get dd k = (case map_of dd k of None \<Rightarrow> [] | Some vs \<Rightarrow> vs)"

definition dd_set :: "'k \<Rightarrow> 'v list \<Rightarrow> ('k \<times> 'v list) list \<Rightarrow> ('k \<times> 'v list) list" where
  "dd_set k vs dd =
     (if k \<in> set (map fst dd) then map (\<lambda>p. if fst p = k then (k, vs) else p) dd
      else dd @ [(k, vs)])"

definition dd_append :: "'k \<Rightarrow> 'v \<Rightarrow> ('k \<times> 'v list) list \<Rightarrow> ('k \<times> 'v list) list" where
  "dd_append k v dd = dd_set k (dd_get dd k @ [v]) dd"

text \<open>\<^verbatim>\<open>strftime('%Y-%m-%d')\<close> of a date that may be missing.\<close>

definition strftime :: "int option \<Rightarrow> date_str" where
  "strftime v = (case v of None \<Rightarrow> NaT_str | Some d \<Rightarrow> DateStr d)"

text \<open>
  \<^verbatim>\<open>get_forward_fill_dict(valid_files, future_days)\<close>. \<open>future_days\<close> is the configured
  \<^verbatim>\<open>FUTURE_DAYS\<close> (the configuration module is not part of the sources; a number of days,
  not negative). \<open>date_df\<close> is the Series over every day from the first snapshot to
  \<open>future_days\<close> after the last, missing everywhere but at the snapshots' own dates, then
  forward filled over at most 59 days (the limit is the literal 59). An empty
  \<open>valid_files\<close> has no first date and \<^verbatim>\<open>pd.DatetimeIndex\<close> raises \<^verbatim>\<open>ValueError\<close>.
\<close>

definition date_df :: "int list \<Rightarrow> nat \<Rightarrow> (int \<times> int option) list" where
  "date_df existing_dates future_days =
     ffill (Some 59)
       (map (\<lambda>d. (d, if d \<in> set existing_dates then Some d else None))
         [Min (set existing_dates) .. Max (set existing_dates) + int future_days])"

definition get_forward_fill_dict ::
  "file_name list \<Rightarrow> nat \<Rightarrow> exn + (file_name \<times> date_str list) list" where
  "get_forward_fill_dict valid_files future_days =
     (case map_exn parse_date valid_files of
        Inl e \<Rightarrow> Inl e
      | Inr [] \<Rightarrow> Inl ValueError
      | Inr (p # ps) \<Rightarrow>
          Inr (fold (\<lambda>entry dd. dd_append (Zip (strftime (snd entry))) (DateStr (fst entry)) dd)
                 (date_df (map fst (p # ps)) future_days) []))"

text \<open>
  \<^verbatim>\<open>get_valid_file_dates_dict\<close>, over the valid files of the bucket (the listing and the
  name pattern are outside), without the logging.
\<close>

fun files_for_stats_ffill ::
  "(file_name \<times> date_str list) list \<Rightarrow> (date_str \<times> string) list
    \<Rightarrow> (file_name \<times> date_str list) list \<Rightarrow> exn + (file_name \<times> date_str list) list" where
  "files_for_stats_ffill [] existing_output_files files_for_stats = Inr files_for_stats"
| "files_for_stats_ffill (entry # ffill_dict) existing_output_files files_for_stats =
     (case get_dates_without_output (map Zip (snd entry)) existing_output_files of
        Inl e \<Rightarrow> Inl e
      | Inr dates \<Rightarrow>
          files_for_stats_ffill ffill_dict existing_output_files
            (dd_set (fst entry) dates files_for_stats))"

definition get_valid_file_dates_dict ::
  "file_name list \<Rightarrow> (date_str \<times> string) list \<Rightarrow> nat \<Rightarrow> bool
    \<Rightarrow> exn + (file_name \<times> date_str list) list" where
  "get_valid_file_dates_dict bucket_valid_files existing_output_files future_days forward_fill =
     (if forward_fill then
        (case get_forward_fill_dict bucket_valid_files future_days of
           Inl e \<Rightarrow> Inl e
         | Inr ffill_dict \<Rightarrow> files_for_stats_ffill ffill_dict existing_output_files [])
      else
        (case get_dates_without_output bucket_valid_files existing_output_files of
           Inl e \<Rightarrow> Inl e
         | Inr dates \<Rightarrow> Inr (fold (\<lambda>date dd. dd_append (Zip date) date dd) dates [])))"

text \<open>
  The specification's words, for comparison: the latest snapshot at or before a date, and
  the snapshot applicable to a date under a maximum gap.
\<close>

definition latest_snapshot :: "int list \<Rightarrow> int \<Rightarrow> int option" where
  "latest_snapshot snapshots d =
     (case filter (\<lambda>s. s \<le> d) snapshots of [] \<Rightarrow> None | c # cs \<Rightarrow> Some (Max (set (c # cs))))"

definition applicable :: "int list \<Rightarrow> int \<Rightarrow> int \<Rightarrow> int option" where
  "applicable snapshots max_gap d =
     (case latest_snapshot snapshots d of
        None \<Rightarrow> None
      | Some s \<Rightarrow> if d - s \<le> max_gap then Some s else None)"

text \<open>The file name of the snapshot of a date: \<^verbatim>\<open>YYYY-MM-DD.zip\<close>.\<close>

definition snapshot_file :: "int \<Rightarrow> file_name" where
  "snapshot_file s = Zip (DateStr s)"

text \<open>
  A date has output when its \<^verbatim>\<open>route_stats\<close> file is among the existing output files
  (the test inside \<^verbatim>\<open>get_dates_without_output\<close>).
\<close>

definition has_output :: "(date_str \<times> string) list \<Rightarrow> date_str \<Rightarrow> bool" where
  "has_output existing_output_files x =
     (Zip x \<in> set (map (\<lambda>g. Zip (fst g)) (filter (\<lambda>g. snd g = ''route_stats'') existing_output_files)))"

section \<open>Batch Orchestrator\<close>

text \<open>
  The outside world of the orchestrator: the bucket (key to archive), the local snapshot
  folder, the output folder (an artifact is found under its date text and its kind,
  \<^verbatim>\<open>trip_stats\<close> or \<^verbatim>\<open>route_stats\<close>), the number of download requests that will still
  fail (a transient outage), and a journal of what was done: the events of the Retry
  Executor, each run of a builder, each removed file. Log lines are left out, but not the
  exceptions that building their text can raise; a logger is passed to every function
  that takes one.
\<close>

datatype act =
    RetryEvent "string event"
  | TripStatsComputed date_str
  | RouteStatsComputed date_str
  | Removed file_name

record 'z world =
  bucket :: "file_name \<rightharpoonup> 'z"
  gtfs_folder :: "file_name \<rightharpoonup> 'z"
  output_folder :: "date_str \<times> string \<rightharpoonup> frame"
  pending_failures :: nat
  journal :: "act list"

text \<open>
  What the orchestrator is given from outside this file: gtfstk's functions, the reading
  of a snapshot archive for one date (\<^verbatim>\<open>gu.get_partridge_feed_by_date\<close>, which raises
  \<^verbatim>\<open>BadZipFile\<close> on a corrupt archive), the same through a filtered copy
  (\<^verbatim>\<open>gu.write_filtered_feed_by_date\<close> then \<^verbatim>\<open>ptg_feed\<close>), the zone table
  (\<^verbatim>\<open>gu.get_zones_df\<close>), the characters of a date text, and the configured
  \<^verbatim>\<open>WRITE_FILTERED_FEED\<close>.
\<close>

record ('p, 'z) services =
  gtfstk :: "'p externals"
  get_partridge_feed_by_date :: "'z \<Rightarrow> int \<Rightarrow> exn + feed"
  filtered_feed_by_date :: "'z \<Rightarrow> int \<Rightarrow> exn + feed"
  get_zones_df :: "exn + frame"
  date_text :: "date_str \<Rightarrow> string"
  WRITE_FILTERED_FEED :: bool

text \<open>
  \<^verbatim>\<open>bucket.download_file(key, output_path)\<close>, the body of \<^verbatim>\<open>s3_download\<close> (the progress
  bar is left out), and \<^verbatim>\<open>s3_download\<close> itself, decorated with \<^verbatim>\<open>@retry()\<close>.
\<close>

definition download_file :: "file_name \<Rightarrow> (string \<rightharpoonup> string) \<Rightarrow> 'z world \<Rightarrow> (exn + unit) \<times> 'z world" where
  "download_file key kwargs w =
     (if 0 < pending_failures w
      then (Inl (ClientError ''connection''), w\<lparr>pending_failures := pending_failures w - 1\<rparr>)
      else
        (case bucket w key of
           None \<Rightarrow> (Inl (ClientError ''404''), w)
         | Some z \<Rightarrow> (Inr (), w\<lparr>gtfs_folder := (gtfs_folder w)(key \<mapsto> z)\<rparr>)))"

definition s3_download ::
  "file_name \<Rightarrow> (string \<rightharpoonup> string) \<Rightarrow> 'z world \<Rightarrow> (exn + unit option) \<times> 'z world \<times> string event list" where
  "s3_download key kwargs w = wrapped default_delays any_exception download_file key kwargs w"

text \<open>\<^verbatim>\<open>get_gtfs_file(file, gtfs_folder, bucket, logger, force)\<close>\<close>

definition get_gtfs_file :: "file_name \<Rightarrow> bool \<Rightarrow> 'z world \<Rightarrow> (exn + bool) \<times> 'z world" where
  "get_gtfs_file file force w =
     (if \<not> force \<and> gtfs_folder w file \<noteq> None then (Inr False, w)
      else
        (case s3_download file [''report'' \<mapsto> ''logger.error''] w of
           (res, w1, evs) \<Rightarrow>
             (case res of
                Inl e \<Rightarrow> (Inl e, w1\<lparr>journal := journal w1 @ map RetryEvent evs\<rparr>)
              | Inr r \<Rightarrow> (Inr True, w1\<lparr>journal := journal w1 @ map RetryEvent evs\<rparr>))))"

text \<open>
  Reading the local snapshot for a date. An archive that is not in the folder cannot be
  opened (\<^verbatim>\<open>FileNotFoundError\<close>).
\<close>

definition read_local_feed ::
  "('z \<Rightarrow> int \<Rightarrow> exn + feed) \<Rightarrow> file_name \<Rightarrow> int \<Rightarrow> 'z world \<Rightarrow> exn + feed" where
  "read_local_feed reader file date w =
     (case gtfs_folder w file of
        None \<Rightarrow> Inl (OtherError ''FileNotFoundError'')
      | Some z \<Rightarrow> reader z date)"

text \<open>\<^verbatim>\<open>df['date'] = date_str; df['date'] = pd.Categorical(df.date)\<close>\<close>

definition tag_date :: "string \<Rightarrow> frame \<Rightarrow> frame" where
  "tag_date text df = set_column ''date'' (replicate (length (rows df)) (S text)) df"

text \<open>
  \<^verbatim>\<open>df.name\<close> for each of the listed names, in order, as the two \<^verbatim>\<open>logger.debug\<close>
  calls evaluate them in their f-strings: a name that is no column of the table raises
  \<^verbatim>\<open>AttributeError\<close>. The f-string is evaluated whatever the level of the logger.
\<close>

definition attribute_lookups :: "frame \<Rightarrow> string list \<Rightarrow> exn + unit" where
  "attribute_lookups df names =
     (case missing_column df names of
        Some c \<Rightarrow> Inl (AttributeError c)
      | None \<Rightarrow> Inr ())"

text \<open>
  The end of \<^verbatim>\<open>handle_gtfs_date\<close>, from the \<^verbatim>\<open>logger.debug\<close> call after the
  \<^verbatim>\<open>if\<close>/\<^verbatim>\<open>else\<close> on: it runs whether \<open>ts\<close> was read from the output folder or just
  computed. The first \<^verbatim>\<open>logger.debug\<close> reads \<^verbatim>\<open>ts.trip_id\<close>, \<^verbatim>\<open>ts.route_id\<close>,
  \<^verbatim>\<open>ts.start_zone\<close> and \<^verbatim>\<open>ts.agency_name\<close> before the route builder is called; the
  second reads \<^verbatim>\<open>rs.num_trips\<close>, \<^verbatim>\<open>rs.route_id\<close>, \<^verbatim>\<open>rs.start_zone\<close> and
  \<^verbatim>\<open>rs.agency_name\<close> of the tagged route table before it is pickled.
\<close>

definition route_stats_part ::
  "('p, 'z) services \<Rightarrow> date_str \<Rightarrow> bool \<Rightarrow> frame \<Rightarrow> 'z world \<Rightarrow> (exn + bool) \<times> 'z world" where
  "route_stats_part sv date_str downloaded ts w =
     (case attribute_lookups ts [''trip_id'', ''route_id'', ''start_zone'', ''agency_name''] of
        Inl e \<Rightarrow> (Inl e, w)
      | Inr u \<Rightarrow>
          (let w1 = w\<lparr>journal := journal w @ [RouteStatsComputed date_str]\<rparr> in
           case route_stats_of (gtfstk sv) ts of
             Inl e \<Rightarrow> (Inl e, w1)
           | Inr rs0 \<Rightarrow>
               (let rs = tag_date (date_text sv date_str) rs0 in
                case attribute_lookups rs
                       [''num_trips'', ''route_id'', ''start_zone'', ''agency_name''] of
                  Inl e \<Rightarrow> (Inl e, w1)
                | Inr u1 \<Rightarrow>
                    (Inr downloaded,
                     w1\<lparr>output_folder :=
                          (output_folder w1)((date_str, ''route_stats'') \<mapsto> rs)\<rparr>))))"

text \<open>
  The branch of \<^verbatim>\<open>handle_gtfs_date\<close> without a persisted trip artifact, after the
  snapshot is in the local folder: read the feed (with one forced download on
  \<^verbatim>\<open>BadZipFile\<close> when no filtered copy is written), the zones, the trip builder, the tag
  and the pickle.
\<close>

definition load_feed ::
  "('p, 'z) services \<Rightarrow> file_name \<Rightarrow> int \<Rightarrow> bool \<Rightarrow> 'z world \<Rightarrow> (exn + bool \<times> feed) \<times> 'z world" where
  "load_feed sv file date downloaded w =
     (if WRITE_FILTERED_FEED sv then
        (case read_local_feed (filtered_feed_by_date sv) file date w of
           Inl e \<Rightarrow> (Inl e, w)
         | Inr fd \<Rightarrow> (Inr (downloaded, fd), w))
      else
        (case read_local_feed (get_partridge_feed_by_date sv) file date w of
           Inr fd \<Rightarrow> (Inr (downloaded, fd), w)
         | Inl e \<Rightarrow>
             if e = BadZipFile then
               (case get_gtfs_file file True w of
                  (Inl e1, w1) \<Rightarrow> (Inl e1, w1)
                | (Inr downloaded1, w1) \<Rightarrow>
                    (case read_local_feed (get_partridge_feed_by_date sv) file date w1 of
                       Inl e2 \<Rightarrow> (Inl e2, w1)
                     | Inr fd \<Rightarrow> (Inr (downloaded1, fd), w1)))
             else (Inl e, w)))"

definition trip_stats_part ::
  "('p, 'z) services \<Rightarrow> date_str \<Rightarrow> bool \<Rightarrow> feed \<Rightarrow> 'z world \<Rightarrow> (exn + frame) \<times> 'z world" where
  "trip_stats_part sv date_str downloaded fd w =
     (case get_zones_df sv of
        Inl e \<Rightarrow> (Inl e, w)
      | Inr zones \<Rightarrow>
          (let w1 = w\<lparr>journal := journal w @ [TripStatsComputed date_str]\<rparr> in
           case compute_trip_stats_partridge (gtfstk sv) fd zones of
             Inl e \<Rightarrow> (Inl e, w1)
           | Inr ts0 \<Rightarrow>
               (let ts = tag_date (date_text sv date_str) ts0 in
                (Inr ts,
                 w1\<lparr>output_folder := (output_folder w1)((date_str, ''trip_stats'') \<mapsto> ts)\<rparr>))))"

text \<open>
  \<^verbatim>\<open>handle_gtfs_date(date_str, file, bucket, ...)\<close>. The first statement parses the date
  text (\<^verbatim>\<open>ValueError\<close> on \<^verbatim>\<open>'NaT'\<close>); then the persisted trip artifact is read when there
  is one (\<^verbatim>\<open>os.path.exists\<close>, \<^verbatim>\<open>pd.read_pickle\<close>), and the rest of the function runs on
  it: the lookups of the log line, the route builder, the tag and the pickle.
\<close>

definition handle_gtfs_date ::
  "('p, 'z) services \<Rightarrow> date_str \<Rightarrow> file_name \<Rightarrow> 'z world \<Rightarrow> (exn + bool) \<times> 'z world" where
  "handle_gtfs_date sv date_str file w =
     (case date_str of
        NaT_str \<Rightarrow> (Inl ValueError, w)
      | DateStr date \<Rightarrow>
          (case output_folder w (date_str, ''trip_stats'') of
             Some ts \<Rightarrow> route_stats_part sv date_str False ts w
           | None \<Rightarrow>
               (case get_gtfs_file file False w of
                  (Inl e, w1) \<Rightarrow> (Inl e, w1)
                | (Inr downloaded, w1) \<Rightarrow>
                    (case load_feed sv file date downloaded w1 of
                       (Inl e, w2) \<Rightarrow> (Inl e, w2)
                     | (Inr df, w2) \<Rightarrow>
                         (case trip_stats_part sv date_str (fst df) (snd df) w2 of
                            (Inl e, w3) \<Rightarrow> (Inl e, w3)
                          | (Inr ts, w3) \<Rightarrow> route_stats_part sv date_str (fst df) ts w3)))))"

text \<open>
  \<^verbatim>\<open>handle_gtfs_file(file, bucket, stats_dates, ..., delete_downloaded_gtfs_zips)\<close>: the
  loop assigns each date's result to \<open>downloaded\<close>; an exception ends the call.
\<close>

fun handle_dates ::
  "('p, 'z) services \<Rightarrow> file_name \<Rightarrow> date_str list \<Rightarrow> bool \<Rightarrow> 'z world \<Rightarrow> (exn + bool) \<times> 'z world" where
  "handle_dates sv file [] downloaded w = (Inr downloaded, w)"
| "handle_dates sv file (date_str # stats_dates) downloaded w =
     (case handle_gtfs_date sv date_str file w of
        (Inl e, w1) \<Rightarrow> (Inl e, w1)
      | (Inr downloaded1, w1) \<Rightarrow> handle_dates sv file stats_dates downloaded1 w1)"

definition handle_gtfs_file ::
  "('p, 'z) services \<Rightarrow> file_name \<Rightarrow> date_str list \<Rightarrow> bool \<Rightarrow> 'z world \<Rightarrow> (exn + unit) \<times> 'z world" where
  "handle_gtfs_file sv file stats_dates delete_downloaded_gtfs_zips w =
     (case handle_dates sv file stats_dates False w of
        (Inl e, w1) \<Rightarrow> (Inl e, w1)
      | (Inr downloaded, w1) \<Rightarrow>
          if delete_downloaded_gtfs_zips \<and> downloaded then
            (case gtfs_folder w1 file of
               None \<Rightarrow> (Inl (OtherError ''FileNotFoundError''), w1)
             | Some z \<Rightarrow>
                 (Inr (), w1\<lparr>gtfs_folder := (gtfs_folder w1)(file := None),
                              journal := journal w1 @ [Removed file]\<rparr>))
          else (Inr (), w1))"

section \<open>A small snapshot, for the examples of the orchestrator\<close>

text \<open>
  One trip over the two stops on the line, and services that read it from every archive
  but archive 0, which is corrupt.
\<close>

definition one_trip_feed :: feed where
  "one_trip_feed =
     \<lparr>trips = \<lparr>columns = [''route_id'', ''trip_id'', ''direction_id'', ''shape_id''],
               rows = [[(''route_id'', S ''r1''), (''trip_id'', S ''t1''), (''direction_id'', N 0),
                        (''shape_id'', S ''s1'')]]\<rparr>,
      routes = \<lparr>columns = [''route_id'', ''route_short_name'', ''route_long_name'',
                            ''route_type'', ''agency_id''],
                rows = [[(''route_id'', S ''r1''), (''route_short_name'', S ''1''),
                         (''route_long_name'', S ''one''), (''route_type'', N 3),
                         (''agency_id'', S ''A'')]]\<rparr>,
      agency = \<lparr>columns = [''agency_id'', ''agency_name''], rows = []\<rparr>,
      stop_times = \<lparr>columns = [''trip_id'', ''stop_sequence'', ''departure_time'', ''stop_id'',
                                ''shape_dist_traveled''],
                    rows = [[(''trip_id'', S ''t1''), (''stop_sequence'', N 2),
                             (''departure_time'', N 28800), (''stop_id'', S ''b''),
                             (''shape_dist_traveled'', N 5000)],
                            [(''trip_id'', S ''t1''), (''stop_sequence'', N 1),
                             (''departure_time'', N 25200), (''stop_id'', S ''a''),
                             (''shape_dist_traveled'', N 0)]]\<rparr>,
      stops = \<lparr>columns = [''stop_id'', ''stop_name'', ''stop_lat'', ''stop_lon'', ''stop_code''],
               rows = [[(''stop_id'', S ''a''), (''stop_name'', S ''A st''), (''stop_lat'', N 1),
                        (''stop_lon'', N 2), (''stop_code'', S ''100'')],
                       [(''stop_id'', S ''b''), (''stop_name'', S ''B st''), (''stop_lat'', N 3),
                        (''stop_lon'', N 4), (''stop_code'', S ''200'')]]\<rparr>\<rparr>"

definition line_services :: "(real, nat) services" where
  "line_services =
     \<lparr>gtfstk = line_externals,
      get_partridge_feed_by_date = (\<lambda>z date. if z = 0 then Inl BadZipFile else Inr one_trip_feed),
      filtered_feed_by_date = (\<lambda>z date. if z = 0 then Inl BadZipFile else Inr one_trip_feed),
      get_zones_df = Inr some_zones,
      date_text = (\<lambda>s. case s of DateStr d \<Rightarrow> ''day'' | NaT_str \<Rightarrow> ''NaT''),
      WRITE_FILTERED_FEED = False\<rparr>"

text \<open>The trip summaries of the small snapshot, as the trip builder returns them.\<close>

definition one_trip_stats :: frame where
  "one_trip_stats =
     \<lparr>columns =
     [''trip_id'', ''route_id'', ''route_short_name'',
     ''route_long_name'', ''agency_id'', ''agency_name'',
     ''route_type'', ''direction_id'', ''shape_id'', ''num_stops'',
     ''start_time'', ''end_time'', ''start_stop_id'', ''end_stop_id'',
     ''start_stop_code'', ''end_stop_code'', ''start_stop_name'',
     ''end_stop_name'', ''start_stop_lat'', ''start_stop_lon'',
     ''end_stop_lat'', ''end_stop_lon'', ''start_zone'', ''end_zone'',
     ''num_zones'', ''num_zones_missing'', ''is_loop'', ''duration'',
     ''distance'', ''speed''],
     rows =
     [[(''start_time'', N 25200), (''end_time'', N 28800),
     (''speed'', N 5), (''trip_id'', S ''t1''),
     (''distance'', N 5000), (''route_id'', S ''r1''),
     (''route_short_name'', S ''1''),
     (''route_long_name'', S ''one''), (''agency_id'', S ''A''),
     (''agency_name'', NaN), (''route_type'', N 3),
     (''direction_id'', N 0), (''shape_id'', S ''s1''),
     (''num_stops'', N 2), (''start_time'', N 25200),
     (''end_time'', N 28800), (''start_stop_id'', S ''a''),
     (''end_stop_id'', S ''b''), (''start_stop_code'', S ''100''),
     (''end_stop_code'', S ''200''),
     (''start_stop_name'', S ''A st''),
     (''end_stop_name'', S ''B st''), (''start_stop_lat'', N 1),
     (''start_stop_lon'', N 2), (''end_stop_lat'', N 3),
     (''end_stop_lon'', N 4), (''start_zone'', S ''z1''),
     (''end_zone'', NaN), (''num_zones'', N 1),
     (''num_zones_missing'', N 1), (''is_loop'', N 0),
     (''duration'', N 1)]]\<rparr>"

text \<open>The same with the \<open>date\<close> column: the persisted trip artifact.\<close>

definition one_trip_stats_tagged :: frame where
  "one_trip_stats_tagged =
     \<lparr>columns =
     [''trip_id'', ''route_id'', ''route_short_name'', ''route_long_name'',
     ''agency_id'', ''agency_name'', ''route_type'', ''direction_id'',
     ''shape_id'', ''num_stops'', ''start_time'', ''end_time'',
     ''start_stop_id'', ''end_stop_id'', ''start_stop_code'',
     ''end_stop_code'', ''start_stop_name'', ''end_stop_name'',
     ''start_stop_lat'', ''start_stop_lon'', ''end_stop_lat'',
     ''end_stop_lon'', ''start_zone'', ''end_zone'', ''num_zones'',
     ''num_zones_missing'', ''is_loop'', ''duration'', ''distance'',
     ''speed'', ''date''],
     rows =
     [[(''date'', S ''day''), (''start_time'', N 25200),
     (''end_time'', N 28800), (''speed'', N 5), (''trip_id'', S ''t1''),
     (''distance'', N 5000), (''route_id'', S ''r1''),
     (''route_short_name'', S ''1''), (''route_long_name'', S ''one''),
     (''agency_id'', S ''A''), (''agency_name'', NaN),
     (''route_type'', N 3), (''direction_id'', N 0),
     (''shape_id'', S ''s1''), (''num_stops'', N 2),
     (''start_time'', N 25200), (''end_time'', N 28800),
     (''start_stop_id'', S ''a''), (''end_stop_id'', S ''b''),
     (''start_stop_code'', S ''100''), (''end_stop_code'', S ''200''),
     (''start_stop_name'', S ''A st''), (''end_stop_name'', S ''B st''),
     (''start_stop_lat'', N 1), (''start_stop_lon'', N 2),
     (''end_stop_lat'', N 3), (''end_stop_lon'', N 4),
     (''start_zone'', S ''z1''), (''end_zone'', NaN),
     (''num_zones'', N 1), (''num_zones_missing'', N 1),
     (''is_loop'', N 0), (''duration'', N 1)]]\<rparr>"

text \<open>The route summaries of that artifact with the \<open>date\<close> column: the persisted route artifact.\<close>

definition one_route_stats_tagged :: frame where
  "one_route_stats_tagged =
     \<lparr>columns =
     [''route_id'', ''route_short_name'', ''agency_id'', ''agency_name'',
     ''route_long_name'', ''route_type'', ''num_trips'',
     ''num_trip_starts'', ''num_trip_ends'', ''is_loop'',
     ''is_bidirectional'', ''start_time'', ''end_time'', ''max_headway'',
     ''min_headway'', ''mean_headway'', ''peak_num_trips'',
     ''peak_start_time'', ''peak_end_time'', ''service_distance'',
     ''service_duration'', ''service_speed'', ''mean_trip_distance'',
     ''mean_trip_duration'', ''start_stop_id'', ''end_stop_id'',
     ''start_stop_lat'', ''start_stop_lon'', ''end_stop_lat'',
     ''end_stop_lon'', ''num_stops'', ''start_zone'', ''end_zone'',
     ''num_zones'', ''num_zones_missing'', ''date''],
     rows =
     [[(''date'', S ''day''), (''route_id'', S ''r1''),
     (''route_short_name'', S ''1''), (''agency_id'', S ''A''),
     (''agency_name'', NaN), (''route_long_name'', S ''one''),
     (''route_type'', N 3), (''num_trips'', N 1),
     (''num_trip_starts'', N 1), (''num_trip_ends'', N 1),
     (''is_loop'', N 0), (''is_bidirectional'', N 0),
     (''start_time'', N 25200), (''end_time'', N 28800),
     (''max_headway'', NaN), (''min_headway'', NaN),
     (''mean_headway'', NaN), (''peak_num_trips'', N 1),
     (''peak_start_time'', N 25200), (''peak_end_time'', N 25200),
     (''service_distance'', N 5000), (''service_duration'', N 1),
     (''service_speed'', N 5), (''mean_trip_distance'', N 5000),
     (''mean_trip_duration'', N 1), (''start_stop_id'', S ''a''),
     (''end_stop_id'', S ''b''), (''start_stop_lat'', N 1),
     (''start_stop_lon'', N 2), (''end_stop_lat'', N 3),
     (''end_stop_lon'', N 4), (''num_stops'', N 2),
     (''start_zone'', S ''z1''), (''end_zone'', NaN),
     (''num_zones'', N 1), (''num_zones_missing'', N 1)]]\<rparr>"

text \<open>
  Two worlds for the examples. In the first the trip artifact of 2024-01-01 is persisted
  and nothing else is there. In the second the bucket holds the snapshot of 2024-01-01
  (archive 1) and the local folders are empty.
\<close>

definition world_with_trip_stats :: "nat world" where
  "world_with_trip_stats =
     \<lparr>bucket = Map.empty, gtfs_folder = Map.empty,
      output_folder = [(DateStr (ymd 2024 1 1), ''trip_stats'') \<mapsto> one_trip_stats_tagged],
      pending_failures = 0, journal = []\<rparr>"

definition world_with_bucket :: "nat world" where
  "world_with_bucket =
     \<lparr>bucket = [snapshot_file (ymd 2024 1 1) \<mapsto> 1], gtfs_folder = Map.empty,
      output_folder = Map.empty, pending_failures = 0, journal = []\<rparr>"

section \<open>Properties of the arithmetic on cells\<close>

lemma cell_div_finite: "y \<noteq> 0 \<Longrightarrow> cell_div (N x) (N y) = N (x / y)"
  by (simp add: cell_div_def)

lemma cell_div_by_zero:
  "cell_div (N x) (N 0) = (if 0 < x then PosInf else if x < 0 then NegInf else NaN)"
  by (simp add: cell_div_def)

lemma speed_of_zero_duration: "cell_div (cell_div (N 5000) (N 0)) (N 1000) = PosInf"
  by (simp add: cell_div_def)

lemma cell_sub_finite: "cell_sub (N x) (N y) = N (x - y)"
  by (simp add: cell_sub_def)

lemma cell_le_finite: "cell_le (N x) (N y) \<longleftrightarrow> x \<le> y"
  by (simp add: cell_le_def)

section \<open>Properties of the Retry Executor\<close>

lemma retry_loop_prefix:
  "failures f (length ds) w = Some (es, w1) \<Longrightarrow> list_all exc es \<Longrightarrow>
   retry_loop exc f report (map Some ds @ tl_delays) problems w =
     (case retry_loop exc f report tl_delays (problems @ es) w1 of
        (res, w2, evs) \<Rightarrow> (res, w2, concat (map (retried report) (zip es ds)) @ evs))"
proof (induction ds arbitrary: w es problems)
  case Nil
  then show ?case by (simp split: prod.splits)
next
  case (Cons d ds)
  from Cons.prems(1) obtain e w' es' where
    fw: "f w = (Inl e, w')" and rest: "failures f (length ds) w' = Some (es', w1)"
    and es: "es = e # es'"
    by (auto split: prod.splits sum.splits option.splits)
  from Cons.prems(2) es have exc_e: "exc e" and exc_es': "list_all exc es'" by simp_all
  show ?case
    using Cons.IH [OF rest exc_es', of "problems @ [e]"] fw es exc_e
    by (simp add: retried_def split: prod.splits)
qed

lemma failures_length: "failures f n w = Some (es, w1) \<Longrightarrow> length es = n"
  by (induction n arbitrary: w es) (auto split: prod.splits sum.splits option.splits)

lemma retry_loop_last:
  assumes "f w1 = (r, w2)" "ds = [] \<or> \<not> is_retryable exc r"
  shows "retry_loop exc f report (map Some ds @ [None]) es w1 =
     (map_sum id Some r, w2, Attempt # final_report report exc es r)"
  using assms
  by (cases ds; cases r) (auto simp: is_retryable_def final_report_def)

text \<open>
  C3. For every operation, delay sequence and predicate of retryable failures, a call that
  passes \<^verbatim>\<open>report\<close> runs as follows. Say its first \<open>k\<close> attempts raise retryable
  failures \<open>es\<close> and attempt \<open>k + 1\<close> has outcome \<open>r\<close>, where either \<open>r\<close> is not a
  retryable failure or the delays are used up (\<open>k\<close> is their number). Then each failure of
  \<open>es\<close> is reported and slept on with the delays in order, attempt \<open>k + 1\<close> is the last
  one, and its outcome is the call's: a value is returned, an exception is raised. When the
  delays are used up and the last attempt fails too, \<^verbatim>\<open>report\<close> is called once more, once,
  with all the failures in order (the last one included), and the exception is raised: the
  final failure is never swallowed.
\<close>

theorem retry_behaviour:
  assumes "kwargs ''report'' = Some report"
    and "k \<le> length delays"
    and "failures (func args kwargs) k w = Some (es, w1)"
    and "list_all exc es"
    and "func args kwargs w1 = (r, w2)"
    and "k = length delays \<or> \<not> is_retryable exc r"
  shows "wrapped delays exc func args kwargs w =
     (map_sum id Some r, w2,
      concat (map (retried report) (zip es delays)) @ Attempt # final_report report exc es r)"
proof -
  let ?f = "func args kwargs"
  have len: "length es = k" using assms(3) by (rule failures_length)
  have split: "map Some delays @ [None] = map Some (take k delays) @ (map Some (drop k delays) @ [None])"
    by (simp flip: map_append)
  have fl: "failures ?f (length (take k delays)) w = Some (es, w1)"
    using assms(2,3) by simp
  have z: "zip es (take k delays) = zip es delays"
  proof -
    have "zip es delays = take k (zip es delays)" using len assms(2) by simp
    also have "\<dots> = zip (take k es) (take k delays)" by (rule take_zip)
    finally show ?thesis using len by simp
  qed
  have d: "drop k delays = [] \<or> \<not> is_retryable exc r"
    using assms(6) by auto
  have last_step: "retry_loop exc ?f report (map Some (drop k delays) @ [None]) es w1 =
     (map_sum id Some r, w2, Attempt # final_report report exc es r)"
    using assms(5) d by (rule retry_loop_last)
  have "retry_loop exc ?f report (map Some delays @ [None]) [] w =
     (map_sum id Some r, w2,
      concat (map (retried report) (zip es (take k delays))) @ Attempt # final_report report exc es r)"
    unfolding split using retry_loop_prefix [OF fl assms(4), of report "map Some (drop k delays) @ [None]" "[]"]
    by (simp add: last_step)
  then show ?thesis
    using assms(1) by (simp add: wrapped_def z)
qed

theorem retry_behaviour_witness:
  "wrapped default_delays any_exception flaky () [''report'' \<mapsto> ''logger.error''] 0 =
     (Inl (ClientError ''xxxxxxx''), 8,
      [Attempt, ReportRetry ''logger.error'' (ClientError []) 0, Sleep 0,
       Attempt, ReportRetry ''logger.error'' (ClientError ''x'') 1, Sleep 1,
       Attempt, ReportRetry ''logger.error'' (ClientError ''xx'') 5, Sleep 5,
       Attempt, ReportRetry ''logger.error'' (ClientError ''xxx'') 30, Sleep 30,
       Attempt, ReportRetry ''logger.error'' (ClientError ''xxxx'') 180, Sleep 180,
       Attempt, ReportRetry ''logger.error'' (ClientError ''xxxxx'') 600, Sleep 600,
       Attempt, ReportRetry ''logger.error'' (ClientError ''xxxxxx'') 3600, Sleep 3600,
       Attempt,
       ReportFinal ''logger.error''
         [ClientError [], ClientError ''x'', ClientError ''xx'', ClientError ''xxx'',
          ClientError ''xxxx'', ClientError ''xxxxx'', ClientError ''xxxxxx'',
          ClientError ''xxxxxxx'']])"
  using retry_behaviour
    [of "[''report'' \<mapsto> ''logger.error'']" "''logger.error''" 7 default_delays flaky "()" 0
        "map (\<lambda>n. ClientError (replicate n CHR ''x'')) [0, 1, 2, 3, 4, 5, 6]" 7 any_exception
        "Inl (ClientError ''xxxxxxx'')" 8]
  by (simp add: default_delays_def any_exception_def flaky_def is_retryable_def
      final_report_def retried_def eval_nat_numeral)


text \<open>
  C10. A call of the decorated function that passes no \<^verbatim>\<open>report\<close> keyword raises
  \<^verbatim>\<open>KeyError\<close> before the wrapped function is called once: no event happens, the world is
  untouched, and the outcome is the same for every wrapped function, so no default the
  wrapped function declares for \<^verbatim>\<open>report\<close> can be consulted.
\<close>

theorem wrapped_without_report_raises_KeyError:
  "kwargs ''report'' = None \<Longrightarrow>
   wrapped delays exc func args kwargs w = (Inl (KeyError ''report''), w, [])"
  by (simp add: wrapped_def)

theorem wrapped_without_report_raises_KeyError_witness:
  "(Map.empty :: string \<rightharpoonup> nat) ''report'' = None \<and>
   wrapped default_delays any_exception
     (\<lambda>(args :: unit) (kwargs :: string \<rightharpoonup> nat) (w :: nat). (Inr (7 :: int), Suc w))
     () Map.empty 0 = (Inl (KeyError ''report''), 0, [])"
  using wrapped_without_report_raises_KeyError
    [of "Map.empty :: string \<rightharpoonup> nat" default_delays any_exception
        "\<lambda>(args :: unit) (kwargs :: string \<rightharpoonup> nat) (w :: nat). (Inr (7 :: int), Suc w)" "()" "0 :: nat"]
  by simp

section \<open>Properties of the Active-Interval Sweep\<close>

lemma ffill_from_all_Some: "ffill_from lmt prev cnt (map Some xs) = map Some xs"
  by (induction xs arbitrary: prev cnt) auto

lemma ffill_no_missing:
  "ffill lmt (map (\<lambda>p. (fst p, Some (snd p))) s) = map (\<lambda>p. (fst p, Some (snd p))) s"
proof -
  have v: "map snd (map (\<lambda>p. (fst p, Some (snd p))) s) = map Some (map snd s)" by simp
  have k: "map fst (map (\<lambda>p. (fst p, Some (snd p))) s) = map fst s" by simp
  have "zip (map fst s) (map Some (map snd s)) = map (\<lambda>p. (fst p, Some (snd p))) s"
    by (induction s) auto
  then show ?thesis
    unfolding ffill_def v k ffill_from_all_Some .
qed

lemma cumsum_from_sorted:
  "sorted ks \<Longrightarrow> distinct ks \<Longrightarrow>
   cumsum_from acc (map (\<lambda>k. (k, d k)) ks) =
     map (\<lambda>k. (k, acc + sum_list (map d (filter (\<lambda>j. j \<le> k) ks)))) ks"
proof (induction ks arbitrary: acc)
  case Nil
  then show ?case by simp
next
  case (Cons k ks)
  have gt: "\<And>j. j \<in> set ks \<Longrightarrow> k < j" using Cons.prems by (auto simp: le_less)
  have hd_filter: "filter (\<lambda>j. j \<le> k) ks = []"
    using gt by (fastforce simp: filter_empty_conv)
  have tl_eq: "map (\<lambda>k'. (k', acc + d k + sum_list (map d (filter (\<lambda>j. j \<le> k') ks)))) ks =
      map (\<lambda>k'. (k', acc + sum_list (map d (filter (\<lambda>j. j \<le> k') (k # ks))))) ks"
    using gt by (intro map_cong) (auto simp: less_imp_le)
  show ?case
    using Cons.IH [of "acc + d k"] Cons.prems
    by (simp add: hd_filter tl_eq)
qed

lemma sum_list_indicator:
  "distinct L \<Longrightarrow> sum_list (map (\<lambda>j. if a = j then c else (0::int)) L) = (if a \<in> set L then c else 0)"
  by (induction L) auto

lemma sum_by_label:
  "distinct ks \<Longrightarrow> fst ` set evs \<subseteq> set ks \<Longrightarrow>
   sum_list (map (\<lambda>j. sum_list (map snd (filter (\<lambda>p. fst p = j) evs))) (filter (\<lambda>j. j \<le> k) ks))
     = sum_list (map snd (filter (\<lambda>p. fst p \<le> (k::'t::linorder)) (evs :: ('t \<times> int) list)))"
proof (induction evs)
  case Nil
  then show ?case by simp
next
  case (Cons p evs)
  let ?L = "filter (\<lambda>j. j \<le> k) ks"
  have dL: "distinct ?L" using Cons.prems(1) by simp
  have mem: "fst p \<in> set ?L \<longleftrightarrow> fst p \<le> k" using Cons.prems(2) by auto
  have "sum_list (map (\<lambda>j. sum_list (map snd (filter (\<lambda>q. fst q = j) (p # evs)))) ?L)
      = sum_list (map (\<lambda>j. (if fst p = j then snd p else 0)
            + sum_list (map snd (filter (\<lambda>q. fst q = j) evs))) ?L)"
    by (intro arg_cong [where f = sum_list] map_cong) auto
  also have "\<dots> = sum_list (map (\<lambda>j. if fst p = j then snd p else 0) ?L)
      + sum_list (map (\<lambda>j. sum_list (map snd (filter (\<lambda>q. fst q = j) evs))) ?L)"
    by (rule sum_list_addf)
  also have "\<dots> = (if fst p \<le> k then snd p else 0)
      + sum_list (map snd (filter (\<lambda>q. fst q \<le> k) evs))"
    using Cons.IH Cons.prems by (simp add: sum_list_indicator [OF dL] mem)
  finally show ?case by simp
qed

lemma sum_const_series:
  "sum_list (map snd (filter (\<lambda>p. fst p \<le> k) (const_series v idx)))
     = v * int (length (filter (\<lambda>t. t \<le> k) idx))"
  by (induction idx) (auto simp: const_series_def algebra_simps)

lemma active_at_events:
  "sum_list (map snd (filter (\<lambda>p. fst p \<le> k)
      (const_series 1 (map fst trip_times) @ const_series (- 1) (map snd trip_times))))
     = active_at trip_times k"
  by (simp add: sum_const_series active_at_def filter_map o_def)

lemma get_active_trips_df_eq:
  "get_active_trips_df trip_times =
     map (\<lambda>t. (t, Some (active_at trip_times t)))
       (sort (remdups (map fst trip_times @ map snd trip_times)))"
proof -
  let ?evs = "const_series 1 (map fst trip_times) @ const_series (- 1) (map snd trip_times)"
  let ?ks = "sort (remdups (map fst ?evs))"
  let ?d = "\<lambda>k. sum_list (map snd (filter (\<lambda>p. fst p = k) ?evs))"
  have keys: "map fst ?evs = map fst trip_times @ map snd trip_times"
    by (simp add: const_series_def o_def)
  have s: "sorted ?ks" and d: "distinct ?ks" by simp_all
  have sub: "fst ` set ?evs \<subseteq> set ?ks" by (simp del: set_append map_append)
  have g: "groupby_level0_sum ?evs = map (\<lambda>k. (k, ?d k)) ?ks"
    by (simp add: groupby_level0_sum_def)
  have c: "cumsum (groupby_level0_sum ?evs) = map (\<lambda>k. (k, active_at trip_times k)) ?ks"
    unfolding cumsum_def g cumsum_from_sorted [OF s d]
    by (simp only: sum_by_label [OF d sub] active_at_events) simp
  have "get_active_trips_df trip_times
      = ffill None (map (\<lambda>p. (fst p, Some (snd p))) (map (\<lambda>k. (k, active_at trip_times k)) ?ks))"
    unfolding get_active_trips_df_def active_trips_series_def c ..
  also have "\<dots> = map (\<lambda>p. (fst p, Some (snd p))) (map (\<lambda>k. (k, active_at trip_times k)) ?ks)"
    by (rule ffill_no_missing)
  finally show ?thesis unfolding keys by (simp add: o_def)
qed

lemma sorted_filter_last_max:
  "sorted ks \<Longrightarrow> filter (\<lambda>k. k \<le> t) ks \<noteq> [] \<Longrightarrow> k \<in> set ks \<Longrightarrow> k \<le> t \<Longrightarrow>
   k \<le> last (filter (\<lambda>k. k \<le> (t::'t::linorder)) ks)"
proof -
  assume s: "sorted ks" and ne: "filter (\<lambda>k. k \<le> t) ks \<noteq> []" and k: "k \<in> set ks" "k \<le> t"
  let ?F = "filter (\<lambda>k. k \<le> t) ks"
  have sF: "sorted ?F" using s by (rule sorted_wrt_filter)
  have kF: "k \<in> set ?F" using k by simp
  then obtain i where i: "i < length ?F" "?F ! i = k" unfolding in_set_conv_nth by blast
  have "?F ! i \<le> ?F ! (length ?F - 1)"
    using sF i(1) by (intro sorted_nth_mono) auto
  then show ?thesis using i(2) ne by (simp add: last_conv_nth)
qed

lemma active_at_held:
  assumes m: "m \<le> t"
    and mx: "\<And>k. k \<in> set (map fst trip_times @ map snd trip_times) \<Longrightarrow> k \<le> t \<Longrightarrow> k \<le> m"
  shows "active_at trip_times m = active_at trip_times t"
proof -
  have a: "filter (\<lambda>p. fst p \<le> m) trip_times = filter (\<lambda>p. fst p \<le> t) trip_times"
    using m mx by (intro filter_cong) (auto intro: order_trans)
  have b: "filter (\<lambda>p. snd p \<le> m) trip_times = filter (\<lambda>p. snd p \<le> t) trip_times"
    using m mx by (intro filter_cong) (auto intro: order_trans)
  show ?thesis by (simp add: active_at_def a b)
qed

lemma hold_forward_nonempty:
  "filter (\<lambda>p. fst p \<le> t) s \<noteq> [] \<Longrightarrow>
   hold_forward s t = snd (last (filter (\<lambda>p. fst p \<le> t) s))"
  by (cases "filter (\<lambda>p. fst p \<le> t) s") (simp_all add: hold_forward_def)

lemma hold_forward_get_active_trips_df:
  "hold_forward (get_active_trips_df trip_times) t =
     (if list_ex (\<lambda>p. fst p \<le> t \<or> snd p \<le> t) trip_times
      then Some (active_at trip_times t) else None)"
proof -
  let ?ks = "sort (remdups (map fst trip_times @ map snd trip_times))"
  let ?F = "filter (\<lambda>k. k \<le> t) ?ks"
  have flt: "filter (\<lambda>p. fst p \<le> t) (get_active_trips_df trip_times)
      = map (\<lambda>k. (k, Some (active_at trip_times k))) ?F"
    by (simp add: get_active_trips_df_eq filter_map o_def)
  have ex: "list_ex (\<lambda>p. fst p \<le> t \<or> snd p \<le> t) trip_times \<longleftrightarrow> ?F \<noteq> []"
    by (auto simp: list_ex_iff filter_empty_conv)
  show ?thesis
  proof (cases "?F = []")
    case True
    then show ?thesis using ex by (simp add: hold_forward_def flt)
  next
    case False
    let ?m = "last ?F"
    have "?m \<in> set ?F" using False by (rule last_in_set)
    then have m: "?m \<le> t" by simp
    have mx: "\<And>k. k \<in> set (map fst trip_times @ map snd trip_times) \<Longrightarrow> k \<le> t \<Longrightarrow> k \<le> ?m"
      using sorted_filter_last_max [of ?ks t] False by simp
    have "hold_forward (get_active_trips_df trip_times) t = Some (active_at trip_times ?m)"
      using False by (simp add: hold_forward_nonempty flt last_map)
    then show ?thesis using ex False active_at_held [OF m mx] by simp
  qed
qed

text \<open>
  C6. For every list of \<open>(start, end)\<close> pairs the sweep gives one entry per distinct
  instant that is a start or an end, instants ascending, and the value at an instant is the
  running total of \<open>+1\<close> per start and \<open>-1\<close> per end up to and including it: the number
  of intervals begun less the number ended (events at one instant are summed). Read as a
  step function that holds the last value forward, the result gives that number at every
  instant from the first event on, event or not. The trailing \<^verbatim>\<open>ffill()\<close> finds nothing
  to fill. On \<open>[(0,10),(5,15)]\<close> the counts are 1 at 0, 2 at 5, 1 at 10 and 0 at 15.
\<close>

theorem active_interval_sweep:
  "get_active_trips_df trip_times =
     map (\<lambda>t. (t, Some (active_at trip_times t)))
       (sort (remdups (map fst trip_times @ map snd trip_times)))
   \<and> hold_forward (get_active_trips_df trip_times) t =
     (if list_ex (\<lambda>p. fst p \<le> t \<or> snd p \<le> t) trip_times
      then Some (active_at trip_times t) else None)
   \<and> get_active_trips_df [(0::int, 10), (5, 15)] = [(0, Some 1), (5, Some 2), (10, Some 1), (15, Some 0)]"
proof -
  have "get_active_trips_df [(0::int, 10), (5, 15)] = [(0, Some 1), (5, Some 2), (10, Some 1), (15, Some 0)]"
    by (simp add: get_active_trips_df_eq active_at_def)
  then show ?thesis
    using get_active_trips_df_eq [of trip_times] hold_forward_get_active_trips_df [of trip_times t]
    by simp
qed

section \<open>Properties of the trip summary\<close>

lemma assign_all_Cons_Inr:
  assumes "assign_all ((k, e) # steps) g d = Inr d'"
  obtains v where "e g d = Inr v" and "assign_all steps g (d @ [(k, v)]) = Inr d'"
  using assms by (cases "e g d") auto

lemma my_agg_is_loop:
  assumes "my_agg geometry_by_stop distance grp = Inr d"
  shows "\<exists>p q. iat_first grp ''stop_id'' = Inr (cell_at d ''start_stop_id'')
     \<and> iat_last grp ''stop_id'' = Inr (cell_at d ''end_stop_id'')
     \<and> geometry_by_stop (cell_at d ''start_stop_id'') = Some p
     \<and> geometry_by_stop (cell_at d ''end_stop_id'') = Some q
     \<and> cell_at d ''is_loop'' = N (if distance p q < 400 then 1 else 0)"
  using assms
  unfolding my_agg_def my_agg_steps_def
  apply (elim assign_all_Cons_Inr)
  apply (clarsimp simp: cell_at_def stop_dist_def split: sum.splits option.splits)
  apply blast
  done

lemma two_stop_trip_agg:
  "my_agg line_geometry line_distance two_stop_trip = Inr two_stop_trip_stat"
  by (simp add: my_agg_def my_agg_steps_def two_stop_trip_def line_geometry_def
      line_distance_def iat_first_def iat_last_def column_def cell_at_def stop_dist_def
      nunique_def isnull_sum_def cell_div_def cell_sub_def two_stop_trip_stat_def)

text \<open>
  C8. Whenever the summary of a trip is computed, its start stop is the stop of the trip's
  first row and its end stop that of the last row, both have a projected point, and
  \<open>is_loop\<close> is 1 if and only if the distance of the two points is strictly below 400
  meters, and 0 if and only if it is 400 meters or more: at exactly 400 meters it is 0.
\<close>

theorem is_loop_threshold:
  assumes "my_agg geometry_by_stop distance grp = Inr d"
  shows "\<exists>p q. iat_first grp ''stop_id'' = Inr (cell_at d ''start_stop_id'')
     \<and> iat_last grp ''stop_id'' = Inr (cell_at d ''end_stop_id'')
     \<and> geometry_by_stop (cell_at d ''start_stop_id'') = Some p
     \<and> geometry_by_stop (cell_at d ''end_stop_id'') = Some q
     \<and> (cell_at d ''is_loop'' = N 1 \<longleftrightarrow> distance p q < 400)
     \<and> (cell_at d ''is_loop'' = N 0 \<longleftrightarrow> 400 \<le> distance p q)"
proof -
  from my_agg_is_loop [OF assms] obtain p q where
    a: "iat_first grp ''stop_id'' = Inr (cell_at d ''start_stop_id'')"
       "iat_last grp ''stop_id'' = Inr (cell_at d ''end_stop_id'')"
       "geometry_by_stop (cell_at d ''start_stop_id'') = Some p"
       "geometry_by_stop (cell_at d ''end_stop_id'') = Some q"
    and l: "cell_at d ''is_loop'' = N (if distance p q < 400 then 1 else 0)"
    by blast
  have "(cell_at d ''is_loop'' = N 1 \<longleftrightarrow> distance p q < 400)
     \<and> (cell_at d ''is_loop'' = N 0 \<longleftrightarrow> 400 \<le> distance p q)"
    using l by auto
  with a show ?thesis by blast
qed

theorem is_loop_threshold_witness:
  "my_agg line_geometry line_distance two_stop_trip = Inr two_stop_trip_stat
   \<and> line_geometry (S ''a'') = Some 0 \<and> line_geometry (S ''b'') = Some 400
   \<and> line_distance 0 400 = 400
   \<and> cell_at two_stop_trip_stat ''is_loop'' = N 0"
  using is_loop_threshold [OF two_stop_trip_agg] two_stop_trip_agg
  by (simp add: line_geometry_def line_distance_def cell_at_def two_stop_trip_stat_def)

section \<open>Properties of the Headway Analyzer\<close>



















section \<open>The builders on an input without rows\<close>

lemma empty_groupby:
  assumes "rows f = []" "groupby f key = Inr g"
  shows "groups g = []"
  using assms by (auto simp: groupby_def column_def sort_by_def split: if_splits)

lemma apply_no_groups:
  "groups g = [] \<Longrightarrow> apply_groups func g = Inr (''index'', [], \<lparr>columns = [], rows = []\<rparr>)"
  by (simp add: apply_groups_def)

lemma route_builder_empty:
  assumes "rows ts = []"
  shows "\<exists>c. compute_route_stats_base_partridge ext ts hs he = Inl (KeyError c)"
proof (cases "applymap_cols (timestr_to_seconds ext) [''start_time'', ''end_time''] ts")
  case (Inl e)
  then obtain c where "e = KeyError c"
    by (auto simp: applymap_cols_def split: option.splits)
  with Inl show ?thesis by (simp add: compute_route_stats_base_partridge_def exn_bind_def)
next
  case (Inr f)
  then have rf: "rows f = []"
    using assms by (auto simp: applymap_cols_def split: option.splits)
  show ?thesis
  proof (cases "groupby f ''route_id''")
    case (Inl e)
    then obtain c where "e = KeyError c"
      by (auto simp: groupby_def column_def split: if_splits)
    with Inl Inr show ?thesis by (simp add: compute_route_stats_base_partridge_def exn_bind_def)
  next
    case g: (Inr g)
    have gg: "groups g = []" using rf g by (rule empty_groupby)
    have "compute_route_stats_base_partridge ext ts hs he = Inl (KeyError ''service_distance'')"
      unfolding compute_route_stats_base_partridge_def
      by (simp add: Inr g exn_bind_def apply_no_groups [OF gg] reset_index_def set_quotient_def
          column_def)
    then show ?thesis by blast
  qed
qed

lemma trip_builder_empty:
  assumes "joined_trip_rows fd zones = Inr f" "rows f = []" "''trip_id'' \<in> set (columns f)"
  shows "compute_trip_stats_partridge ext fd zones =
     (if ''shape_dist_traveled'' \<in> set (columns f) then Inl (KeyError ''duration'')
      else Inl (AttributeError ''shape_dist_traveled''))"
proof -
  obtain g where g: "groupby f ''trip_id'' = Inr g" and og: "obj g = f"
    using assms(3) by (auto simp: groupby_def column_def)
  have gg: "groups g = []" using assms(2) g by (rule empty_groupby)
  show ?thesis
    unfolding compute_trip_stats_partridge_def
    by (simp add: assms(1) g og gg exn_bind_def apply_no_groups [OF gg] reset_index_def
        grouped_max_def column_def set_column_def)
qed

lemma empty_feed_joined:
  "joined_trip_rows empty_feed some_zones =
     Inr \<lparr>columns = [''route_id'', ''trip_id'', ''direction_id'', ''shape_id'',
         ''route_short_name'', ''route_long_name'', ''route_type'',
         ''agency_id'', ''agency_name'', ''stop_sequence'',
         ''departure_time'', ''stop_id'', ''shape_dist_traveled'',
         ''stop_name'', ''stop_lat'', ''stop_lon'', ''stop_code'',
         ''zone_name''], rows = []\<rparr>"
  by (simp add: joined_trip_rows_def empty_feed_def some_zones_def exn_bind_def select_cols_def
      missing_column_def merge_def Let_def sort_values_def sort_by_def)


lemma exn_bind_Inr:
  assumes "exn_bind m k = Inr y"
  obtains x where "m = Inr x" and "k x = Inr y"
  using assms by (cases m) (auto simp: exn_bind_def)

lemma joined_has_trip_id:
  assumes "joined_trip_rows fd zones = Inr f"
  shows "''trip_id'' \<in> set (columns f)"
proof -
  from assms obtain f5 where "sort_values [''trip_id'', ''stop_sequence''] f5 = Inr f"
    unfolding joined_trip_rows_def by (elim exn_bind_Inr) auto
  then show ?thesis
    by (auto simp: sort_values_def missing_column_def split: list.splits if_splits)
qed

text \<open>
  C2. On an input without rows neither builder returns a table. The route builder raises
  \<^verbatim>\<open>KeyError\<close> for every table of trip summaries that has no rows: the columns it reads
  next exist only through the calls of the per-route function, and there is no route.
  The trip builder, whenever the joined trip-stop table has no rows, raises
  \<^verbatim>\<open>KeyError('duration')\<close> (or \<^verbatim>\<open>AttributeError\<close>, when the table has no
  \<open>shape_dist_traveled\<close> column), for the same reason.
\<close>

theorem builders_raise_on_empty_input:
  assumes "rows trip_stats_subset = []"
    and "joined_trip_rows fd zones = Inr f" and "rows f = []"
  shows "(\<exists>c. compute_route_stats_base_partridge ext trip_stats_subset hs he = Inl (KeyError c))
    \<and> compute_trip_stats_partridge ext' fd zones =
        (if ''shape_dist_traveled'' \<in> set (columns f) then Inl (KeyError ''duration'')
         else Inl (AttributeError ''shape_dist_traveled''))"
  using route_builder_empty [OF assms(1)]
    trip_builder_empty [OF assms(2) assms(3) joined_has_trip_id [OF assms(2)]]
  by blast

theorem builders_raise_on_empty_input_witness:
  "rows empty_trip_stats = []
   \<and> (\<exists>f. joined_trip_rows empty_feed some_zones = Inr f \<and> rows f = [])
   \<and> compute_route_stats_base_partridge line_externals empty_trip_stats ''07:00:00'' ''19:00:00''
       = Inl (KeyError ''service_distance'')
   \<and> compute_trip_stats_partridge line_externals empty_feed some_zones
       = Inl (KeyError ''duration'')"
proof -
  have r: "rows empty_trip_stats = []" by (simp add: empty_trip_stats_def)
  have e: "rows \<lparr>columns = [''route_id'', ''trip_id'', ''direction_id'', ''shape_id'',
         ''route_short_name'', ''route_long_name'', ''route_type'',
         ''agency_id'', ''agency_name'', ''stop_sequence'',
         ''departure_time'', ''stop_id'', ''shape_dist_traveled'',
         ''stop_name'', ''stop_lat'', ''stop_lon'', ''stop_code'',
         ''zone_name''], rows = []\<rparr> = []" by simp
  have route: "compute_route_stats_base_partridge line_externals empty_trip_stats
       ''07:00:00'' ''19:00:00'' = Inl (KeyError ''service_distance'')"
    by (simp add: compute_route_stats_base_partridge_def empty_trip_stats_def exn_bind_def
        applymap_cols_def missing_column_def groupby_def column_def sort_by_def
        apply_groups_def reset_index_def set_quotient_def)
  from builders_raise_on_empty_input [OF r empty_feed_joined e, of line_externals
      "''07:00:00''" "''19:00:00''" line_externals]
  have "compute_trip_stats_partridge line_externals empty_feed some_zones
      = Inl (KeyError ''duration'')"
    by simp
  with r route empty_feed_joined show ?thesis by simp
qed

section \<open>Properties of the Incremental Scheduler\<close>

lemma latest_snapshot_None: "(\<And>s. s \<in> set ds \<Longrightarrow> d < s) \<Longrightarrow> latest_snapshot ds d = None"
proof -
  assume a: "\<And>s. s \<in> set ds \<Longrightarrow> d < s"
  have "\<And>s. s \<in> set ds \<Longrightarrow> \<not> s \<le> d" using a by fastforce
  then have "filter (\<lambda>s. s \<le> d) ds = []"
    by (simp add: filter_empty_conv)
  then show ?thesis by (simp add: latest_snapshot_def)
qed

lemma latest_snapshot_eq:
  "latest_snapshot ds d =
     (if {s \<in> set ds. s \<le> d} = {} then None else Some (Max {s \<in> set ds. s \<le> d}))"
proof -
  have st: "{s \<in> set ds. s \<le> d} = set (filter (\<lambda>s. s \<le> d) ds)" by simp
  show ?thesis
    unfolding st latest_snapshot_def
    by (cases "filter (\<lambda>s. s \<le> d) ds") simp_all
qed

lemma latest_snapshot_step:
  "latest_snapshot ds a = (if a \<in> set ds then Some a else latest_snapshot ds (a - 1))"
proof (cases "a \<in> set ds")
  case True
  let ?A = "{s \<in> set ds. s \<le> a}"
  have "Max ?A = a"
  proof (rule Max_eqI)
    show "finite ?A" by simp
    show "\<And>s. s \<in> ?A \<Longrightarrow> s \<le> a" by simp
    show "a \<in> ?A" using True by simp
  qed
  moreover have "?A \<noteq> {}" using True by blast
  ultimately show ?thesis using True by (simp only: latest_snapshot_eq if_True if_False)
next
  case False
  have "\<And>s. s \<in> set ds \<Longrightarrow> (s \<le> a) = (s \<le> a - 1)"
  proof -
    fix s assume "s \<in> set ds"
    then have "s \<noteq> a" using False by blast
    then show "(s \<le> a) = (s \<le> a - 1)" by arith
  qed
  then have "{s \<in> set ds. s \<le> a} = {s \<in> set ds. s \<le> a - 1}" by blast
  then show ?thesis using False by (simp only: latest_snapshot_eq if_False)
qed

lemma ffill_from_dates:
  assumes "case prev of None \<Rightarrow> latest_snapshot ds (a - 1) = None
           | Some s \<Rightarrow> latest_snapshot ds (a - 1) = Some s \<and> int cnt = a - 1 - s"
  shows "ffill_from (Some n) prev cnt (map (\<lambda>d. if d \<in> set ds then Some d else None) [a..b])
     = map (applicable ds (int n)) [a..b]"
  using assms
proof (induction "nat (b - a + 1)" arbitrary: a prev cnt)
  case 0
  then have "[a..b] = []" by simp
  then show ?case by simp
next
  case (Suc k)
  then have ab: "a \<le> b" by simp
  then have up: "[a..b] = a # [a + 1..b]" by (simp add: upto_rec1)
  have k: "k = nat (b - (a + 1) + 1)" using Suc.hyps(2) by simp
  show ?case
  proof (cases "a \<in> set ds")
    case True
    have inv: "case Some a of None \<Rightarrow> latest_snapshot ds (a + 1 - 1) = None
           | Some s \<Rightarrow> latest_snapshot ds (a + 1 - 1) = Some s \<and> int (0::nat) = a + 1 - 1 - s"
      using True by (simp add: latest_snapshot_step)
    have "applicable ds (int n) a = Some a"
      using True by (simp add: applicable_def latest_snapshot_step)
    then show ?thesis
      using Suc.hyps(1) [OF k inv] True by (simp add: up)
  next
    case False
    have ls: "latest_snapshot ds a = latest_snapshot ds (a - 1)"
      using False by (simp add: latest_snapshot_step)
    have inv: "case prev of None \<Rightarrow> latest_snapshot ds (a + 1 - 1) = None
           | Some s \<Rightarrow> latest_snapshot ds (a + 1 - 1) = Some s \<and> int (Suc cnt) = a + 1 - 1 - s"
      using Suc.prems ls by (auto split: option.splits)
    have hd: "(if cnt < n then prev else None) = applicable ds (int n) a"
      using Suc.prems ls by (auto simp: applicable_def split: option.splits)
    show ?thesis
      using Suc.hyps(1) [OF k inv] False hd by (simp add: up)
  qed
qed

lemma zip_map_self: "zip xs (map f xs) = map (\<lambda>x. (x, f x)) xs"
  by (induction xs) auto

lemma date_df_eq:
  assumes "ds \<noteq> []"
  shows "date_df ds fd =
     map (\<lambda>d. (d, applicable ds 59 d)) [Min (set ds) .. Max (set ds) + int fd]"
proof -
  let ?r = "[Min (set ds) .. Max (set ds) + int fd]"
  have none: "latest_snapshot ds (Min (set ds) - 1) = None"
  proof (rule latest_snapshot_None)
    fix s assume "s \<in> set ds"
    then have "Min (set ds) \<le> s" by simp
    then show "Min (set ds) - 1 < s" by simp
  qed
  have f: "ffill_from (Some 59) None 0 (map (\<lambda>d. if d \<in> set ds then Some d else None) ?r)
      = map (applicable ds (int 59)) ?r"
    by (rule ffill_from_dates) (simp add: none)
  have m1: "map fst (map (\<lambda>d. (d, if d \<in> set ds then Some d else None)) ?r) = ?r"
    by (simp add: o_def)
  have m2: "map snd (map (\<lambda>d. (d, if d \<in> set ds then Some d else None)) ?r)
      = map (\<lambda>d. if d \<in> set ds then Some d else None) ?r"
    by (simp add: o_def)
  have "date_df ds fd = zip ?r (map (applicable ds 59) ?r)"
    unfolding date_df_def ffill_def m1 m2 f by simp
  also have "\<dots> = map (\<lambda>d. (d, applicable ds 59 d)) ?r"
    by (rule zip_map_self)
  finally show ?thesis .
qed


lemma dd_get_dd_set: "dd_get (dd_set k vs dd) k' = (if k' = k then vs else dd_get dd k')"
proof (cases "k \<in> set (map fst dd)")
  case True
  have "map_of (map (\<lambda>p. if fst p = k then (k, vs) else p) dd) k'
      = (if k' = k then (if k \<in> fst ` set dd then Some vs else None) else map_of dd k')"
    by (induction dd) (auto simp: image_iff, force+)
  then show ?thesis using True by (simp add: dd_get_def dd_set_def)
next
  case False
  then have "map_of dd k = None" by (simp add: map_of_eq_None_iff)
  then show ?thesis using False
    by (auto simp: dd_get_def dd_set_def map_add_def split: option.splits)
qed

lemma dd_get_dd_append:
  "dd_get (dd_append k v dd) k' = (if k' = k then dd_get dd k @ [v] else dd_get dd k')"
  by (simp add: dd_append_def dd_get_dd_set)

lemma dd_get_fold_append:
  "dd_get (fold (\<lambda>entry dd. dd_append (key entry) (val entry) dd) es dd) k
     = dd_get dd k @ map val (filter (\<lambda>entry. key entry = k) es)"
  by (induction es arbitrary: dd) (auto simp: dd_get_dd_append)

lemma map_exn_parse_date:
  "map_exn parse_date (map snapshot_file ds) = Inr (map (\<lambda>s. (s, DateStr s)) ds)"
  by (induction ds) (auto simp: parse_date_def snapshot_file_def)

lemma get_forward_fill_dict_eq:
  assumes "ds \<noteq> []"
  shows "\<exists>D. get_forward_fill_dict (map snapshot_file ds) fd = Inr D
    \<and> (\<forall>k. dd_get D k = map DateStr
          (filter (\<lambda>d. Zip (strftime (applicable ds 59 d)) = k)
             [Min (set ds) .. Max (set ds) + int fd]))"
proof -
  let ?r = "[Min (set ds) .. Max (set ds) + int fd]"
  let ?D = "fold (\<lambda>entry dd. dd_append (Zip (strftime (snd entry))) (DateStr (fst entry)) dd)
                 (date_df ds fd) []"
  obtain p ps where ps: "map (\<lambda>s. (s, DateStr s)) ds = p # ps"
    using assms by (cases ds) auto
  have fsts: "map fst (p # ps) = ds"
    unfolding ps [symmetric] by (simp add: o_def)
  have g: "get_forward_fill_dict (map snapshot_file ds) fd = Inr ?D"
    unfolding get_forward_fill_dict_def map_exn_parse_date ps
    by (simp only: sum.case list.case fsts)
  have "\<And>k. dd_get ?D k = map DateStr (filter (\<lambda>d. Zip (strftime (applicable ds 59 d)) = k) ?r)"
    unfolding dd_get_fold_append date_df_eq [OF assms]
    by (simp add: dd_get_def filter_map o_def)
  with g show ?thesis by blast
qed


lemma filter_upto_eq:
  assumes "\<And>d. (lo \<le> d \<and> d \<le> hi \<and> P d) = (lo' \<le> d \<and> d \<le> hi')"
  shows "filter P [lo..hi] = [lo'..hi']"
proof (rule sorted_distinct_set_unique)
  show "sorted (filter P [lo..hi])" by (simp add: sorted_wrt_filter)
  show "distinct (filter P [lo..hi])" by simp
  show "sorted [lo'..hi']" by simp
  show "distinct [lo'..hi']" by simp
  have "\<And>d. d \<in> set (filter P [lo..hi]) \<longleftrightarrow> d \<in> set [lo'..hi']"
    using assms by simp
  then show "set (filter P [lo..hi]) = set [lo'..hi']" by blast
qed

lemma applicable_Some_iff:
  "applicable ds g d = Some s \<longleftrightarrow>
     s \<in> set ds \<and> s \<le> d \<and> d - s \<le> g \<and> (\<forall>s' \<in> set ds. s' \<le> d \<longrightarrow> s' \<le> s)"
proof (cases "{s \<in> set ds. s \<le> d} = {}")
  case True
  then show ?thesis by (auto simp: applicable_def latest_snapshot_eq)
next
  case False
  let ?A = "{s \<in> set ds. s \<le> d}"
  have fin: "finite ?A" by simp
  have mx: "Max ?A = s \<longleftrightarrow> s \<in> ?A \<and> (\<forall>s' \<in> ?A. s' \<le> s)"
    using fin False by (metis (no_types, lifting) Max_eqI Max_ge Max_in)
  have "applicable ds g d = Some s \<longleftrightarrow> Max ?A = s \<and> d - s \<le> g"
    using False by (auto simp: applicable_def latest_snapshot_eq)
  also have "\<dots> \<longleftrightarrow> s \<in> set ds \<and> s \<le> d \<and> d - s \<le> g \<and> (\<forall>s' \<in> set ds. s' \<le> d \<longrightarrow> s' \<le> s)"
    unfolding mx by auto
  finally show ?thesis .
qed

lemma forward_fill_lists:
  assumes "ds \<noteq> []"
  shows "\<exists>D. get_forward_fill_dict (map snapshot_file ds) fd = Inr D
    \<and> (\<forall>s. dd_get D (snapshot_file s) = map DateStr
          (filter (\<lambda>d. applicable ds 59 d = Some s) [Min (set ds) .. Max (set ds) + int fd]))
    \<and> dd_get D (Zip NaT_str) = map DateStr
          (filter (\<lambda>d. applicable ds 59 d = None) [Min (set ds) .. Max (set ds) + int fd])
    \<and> (\<forall>k k' x. x \<in> set (dd_get D k) \<longrightarrow> x \<in> set (dd_get D k') \<longrightarrow> k = k')
    \<and> (\<forall>k. distinct (dd_get D k))"
proof -
  let ?r = "[Min (set ds) .. Max (set ds) + int fd]"
  from get_forward_fill_dict_eq [OF assms, of fd] obtain D where
    g: "get_forward_fill_dict (map snapshot_file ds) fd = Inr D"
    and l: "\<And>k. dd_get D k = map DateStr (filter (\<lambda>d. Zip (strftime (applicable ds 59 d)) = k) ?r)"
    by blast
  have a: "\<And>s. dd_get D (snapshot_file s) = map DateStr (filter (\<lambda>d. applicable ds 59 d = Some s) ?r)"
    unfolding l snapshot_file_def
    by (intro arg_cong [where f = "map DateStr"] filter_cong) (auto simp: strftime_def split: option.splits)
  have b: "dd_get D (Zip NaT_str) = map DateStr (filter (\<lambda>d. applicable ds 59 d = None) ?r)"
    unfolding l
    by (intro arg_cong [where f = "map DateStr"] filter_cong) (auto simp: strftime_def split: option.splits)
  have c: "\<And>k k' x. x \<in> set (dd_get D k) \<Longrightarrow> x \<in> set (dd_get D k') \<Longrightarrow> k = k'"
    unfolding l by auto
  have d: "\<And>k. distinct (dd_get D k)"
    unfolding l by (simp add: distinct_map inj_on_def)
  from g a b c d show ?thesis by blast
qed

lemma ymd_values:
  "ymd 2024 1 1 = 738886" "ymd 2024 2 29 = 738945" "ymd 2024 3 1 = 738946"
  "ymd 2024 5 31 = 739037" "ymd 2024 6 1 = 739038" "ymd 2024 7 31 = 739098"
  by (simp_all add: ymd_def days_before_year_def days_before_month_def is_leap_def)

lemma applicable_two:
  assumes "a < b"
  shows "applicable [a, b] g d =
     (if d < a then None
      else if d < b then (if d - a \<le> g then Some a else None)
      else (if d - b \<le> g then Some b else None))"
  using assms by (auto simp: applicable_def latest_snapshot_def)

lemma forward_fill_example:
  "\<exists>D. get_forward_fill_dict [snapshot_file (ymd 2024 1 1), snapshot_file (ymd 2024 3 1)] fd = Inr D
    \<and> dd_get D (snapshot_file (ymd 2024 1 1)) = map DateStr [ymd 2024 1 1 .. ymd 2024 2 29]
    \<and> dd_get D (snapshot_file (ymd 2024 3 1))
        = map DateStr [ymd 2024 3 1 .. ymd 2024 3 1 + min (int fd) 59]"
proof -
  let ?ds = "[738886, 738946 :: int]"
  have ne: "?ds \<noteq> []" by simp
  from forward_fill_lists [OF ne, of fd] obtain D where
    g: "get_forward_fill_dict (map snapshot_file ?ds) fd = Inr D"
    and a: "\<And>s. dd_get D (snapshot_file s) = map DateStr
          (filter (\<lambda>d. applicable ?ds 59 d = Some s) [Min (set ?ds) .. Max (set ?ds) + int fd])"
    by blast
  have r: "[Min (set ?ds) .. Max (set ?ds) + int fd] = [738886 .. 738946 + int fd]" by simp
  have f1: "filter (\<lambda>d. applicable ?ds 59 d = Some 738886) [738886 .. 738946 + int fd]
      = [738886 .. 738945]"
    by (rule filter_upto_eq) (auto simp: applicable_two)
  have f2: "filter (\<lambda>d. applicable ?ds 59 d = Some 738946) [738886 .. 738946 + int fd]
      = [738946 .. 738946 + min (int fd) 59]"
    by (rule filter_upto_eq) (auto simp: applicable_two)
  show ?thesis
    using g a [of 738886] a [of 738946] unfolding r f1 f2 ymd_values by auto
qed


lemma get_dates_without_output_dates:
  "list_all (\<lambda>x. x \<noteq> NaT_str) vs \<Longrightarrow>
   get_dates_without_output (map Zip vs) existing = Inr (filter (\<lambda>x. \<not> has_output existing x) vs)"
proof (induction vs)
  case Nil
  then show ?case by (simp add: get_dates_without_output_def)
next
  case (Cons x xs)
  then obtain d where x: "x = DateStr d" by (cases x) auto
  from Cons have IH: "get_dates_without_output (map Zip xs) existing
      = Inr (filter (\<lambda>x. \<not> has_output existing x) xs)" by simp
  show ?case
    using IH unfolding get_dates_without_output_def has_output_def x
    by (simp add: parse_date_def)
qed

lemma dd_set_keys:
  "map fst (dd_set k vs dd) = (if k \<in> set (map fst dd) then map fst dd else map fst dd @ [k])"
  by (induction dd) (auto simp: dd_set_def)

lemma dd_append_distinct: "distinct (map fst dd) \<Longrightarrow> distinct (map fst (dd_append k v dd))"
  unfolding dd_append_def dd_set_keys by simp

lemma fold_dd_append_distinct:
  "distinct (map fst dd) \<Longrightarrow>
   distinct (map fst (fold (\<lambda>entry dd. dd_append (key entry) (val entry) dd) es dd))"
  by (induction es arbitrary: dd) (simp_all add: dd_append_distinct)

lemma dd_get_member: "distinct (map fst dd) \<Longrightarrow> (k, vs) \<in> set dd \<Longrightarrow> dd_get dd k = vs"
  by (simp add: dd_get_def)

lemma dd_get_not_key: "k \<notin> fst ` set dd \<Longrightarrow> dd_get dd k = []"
proof -
  assume "k \<notin> fst ` set dd"
  then have "map_of dd k = None" by (simp add: map_of_eq_None_iff)
  then show ?thesis by (simp add: dd_get_def)
qed

lemma dd_get_Cons: "dd_get ((a, v) # dd) k = (if k = a then v else dd_get dd k)"
  by (simp add: dd_get_def)

lemma files_for_stats_ffill_eq:
  assumes "distinct (map fst ffd)"
    and "list_all (\<lambda>entry. list_all (\<lambda>x. x \<noteq> NaT_str) (snd entry)) ffd"
  shows "\<exists>W. files_for_stats_ffill ffd existing acc = Inr W
    \<and> (\<forall>k. dd_get W k = (if k \<in> fst ` set ffd
                          then filter (\<lambda>x. \<not> has_output existing x) (dd_get ffd k)
                          else dd_get acc k))"
  using assms
proof (induction ffd arbitrary: acc)
  case Nil
  then show ?case by simp
next
  case (Cons entry rest)
  obtain k0 vs0 where e: "entry = (k0, vs0)" by (cases entry)
  let ?acc = "dd_set k0 (filter (\<lambda>x. \<not> has_output existing x) vs0) acc"
  have d: "distinct (map fst rest)" and k0: "k0 \<notin> fst ` set rest"
    using Cons.prems(1) e by auto
  have ok: "list_all (\<lambda>entry. list_all (\<lambda>x. x \<noteq> NaT_str) (snd entry)) rest"
    and ok0: "list_all (\<lambda>x. x \<noteq> NaT_str) vs0"
    using Cons.prems(2) e by auto
  from Cons.IH [OF d ok, of ?acc] obtain W where
    W: "files_for_stats_ffill rest existing ?acc = Inr W"
    and g: "\<And>k. dd_get W k = (if k \<in> fst ` set rest
                          then filter (\<lambda>x. \<not> has_output existing x) (dd_get rest k)
                          else dd_get ?acc k)"
    by blast
  have step: "files_for_stats_ffill (entry # rest) existing acc = Inr W"
    using W by (simp add: e get_dates_without_output_dates [OF ok0])
  have "\<And>k. dd_get W k = (if k \<in> fst ` set (entry # rest)
                          then filter (\<lambda>x. \<not> has_output existing x) (dd_get (entry # rest) k)
                          else dd_get acc k)"
    using k0 unfolding g e by (auto simp: dd_get_dd_set dd_get_Cons)
  with step show ?case by blast
qed

lemma forward_fill_work_list:
  assumes "ds \<noteq> []"
  shows "\<exists>D W. get_forward_fill_dict (map snapshot_file ds) fd = Inr D
    \<and> get_valid_file_dates_dict (map snapshot_file ds) existing fd True = Inr W
    \<and> (\<forall>k. dd_get W k = filter (\<lambda>x. \<not> has_output existing x) (dd_get D k))"
proof -
  let ?r = "[Min (set ds) .. Max (set ds) + int fd]"
  let ?D = "fold (\<lambda>entry dd. dd_append (Zip (strftime (snd entry))) (DateStr (fst entry)) dd)
                 (date_df ds fd) []"
  from get_forward_fill_dict_eq [OF assms, of fd] obtain D where
    g: "get_forward_fill_dict (map snapshot_file ds) fd = Inr D"
    and l: "\<And>k. dd_get D k = map DateStr (filter (\<lambda>d. Zip (strftime (applicable ds 59 d)) = k) ?r)"
    by blast
  obtain p ps where ps: "map (\<lambda>s. (s, DateStr s)) ds = p # ps"
    using assms by (cases ds) auto
  have fsts: "map fst (p # ps) = ds"
    unfolding ps [symmetric] by (simp add: o_def)
  have "get_forward_fill_dict (map snapshot_file ds) fd = Inr ?D"
    unfolding get_forward_fill_dict_def map_exn_parse_date ps
    by (simp only: sum.case list.case fsts)
  with g have D: "D = ?D" by simp
  have dist: "distinct (map fst D)"
    unfolding D by (rule fold_dd_append_distinct) simp
  have vals: "list_all (\<lambda>entry. list_all (\<lambda>x. x \<noteq> NaT_str) (snd entry)) D"
  proof -
    have "\<And>k vs. (k, vs) \<in> set D \<Longrightarrow> list_all (\<lambda>x. x \<noteq> NaT_str) vs"
    proof -
      fix k vs assume "(k, vs) \<in> set D"
      then have "dd_get D k = vs" using dist by (simp add: dd_get_member)
      then have "vs = map DateStr (filter (\<lambda>d. Zip (strftime (applicable ds 59 d)) = k) ?r)"
        using l [of k] by simp
      then show "list_all (\<lambda>x. x \<noteq> NaT_str) vs" by (simp add: list_all_iff)
    qed
    then show ?thesis unfolding list_all_iff by fastforce
  qed
  from files_for_stats_ffill_eq [OF dist vals, of existing "[]"] obtain W where
    W: "files_for_stats_ffill D existing [] = Inr W"
    and w: "\<And>k. dd_get W k = (if k \<in> fst ` set D
                          then filter (\<lambda>x. \<not> has_output existing x) (dd_get D k)
                          else dd_get [] k)"
    by blast
  have "\<And>k. dd_get W k = filter (\<lambda>x. \<not> has_output existing x) (dd_get D k)"
    unfolding w by (simp add: dd_get_not_key)
  moreover have "get_valid_file_dates_dict (map snapshot_file ds) existing fd True = Inr W"
    using g W by (simp add: get_valid_file_dates_dict_def)
  ultimately show ?thesis using g by blast
qed


lemma forward_fill_long_gap:
  "\<exists>D. get_forward_fill_dict [snapshot_file (ymd 2024 1 1), snapshot_file (ymd 2024 6 1)] 0 = Inr D
    \<and> dd_get D (snapshot_file (ymd 2024 1 1)) = map DateStr [ymd 2024 1 1 .. ymd 2024 2 29]
    \<and> dd_get D (Zip NaT_str) = map DateStr [ymd 2024 3 1 .. ymd 2024 5 31]
    \<and> dd_get D (snapshot_file (ymd 2024 6 1)) = [DateStr (ymd 2024 6 1)]"
proof -
  let ?ds = "[738886, 739038 :: int]"
  have ne: "?ds \<noteq> []" by simp
  from forward_fill_lists [OF ne, of 0] obtain D where
    g: "get_forward_fill_dict (map snapshot_file ?ds) 0 = Inr D"
    and a: "\<And>s. dd_get D (snapshot_file s) = map DateStr
          (filter (\<lambda>d. applicable ?ds 59 d = Some s) [Min (set ?ds) .. Max (set ?ds) + int 0])"
    and b: "dd_get D (Zip NaT_str) = map DateStr
          (filter (\<lambda>d. applicable ?ds 59 d = None) [Min (set ?ds) .. Max (set ?ds) + int 0])"
    by blast
  have r: "[Min (set ?ds) .. Max (set ?ds) + int 0] = [738886 .. 739038]" by simp
  have f1: "filter (\<lambda>d. applicable ?ds 59 d = Some 738886) [738886 .. 739038]
      = [738886 .. 738945]"
    by (rule filter_upto_eq) (auto simp: applicable_two)
  have f2: "filter (\<lambda>d. applicable ?ds 59 d = Some 739038) [738886 .. 739038]
      = [739038 .. 739038]"
    by (rule filter_upto_eq) (auto simp: applicable_two)
  have f3: "filter (\<lambda>d. applicable ?ds 59 d = None) [738886 .. 739038]
      = [738946 .. 739037]"
    by (rule filter_upto_eq) (auto simp: applicable_two)
  have one: "[739038 .. 739038] = [739038::int]" by simp
  show ?thesis
    using g a [of 738886] a [of 739038] b unfolding r f1 f2 f3 ymd_values one by auto
qed

text \<open>
  C5. In forward-fill mode, for every non-empty list of snapshot dates the plan is built
  without an exception and the dates listed under a snapshot's file are, in ascending
  order, exactly the days of the planned range (from the first snapshot to
  \<open>future_days\<close> after the last) to which that snapshot is applicable: it is a snapshot of
  the list at or before the day, no snapshot of the list lies after it and at or before
  the day, and the day is at most 59 days after it. No date is in the lists of two keys,
  and no list holds a date twice. With snapshots only at 2024-01-01 and 2024-03-01, the
  first covers 2024-01-01 through 2024-02-29 and the second covers from 2024-03-01 on
  (to \<open>future_days\<close> after it, at most 59 days).
\<close>

theorem forward_fill_assignment:
  assumes "snapshots \<noteq> []"
  shows "(\<exists>D. get_forward_fill_dict (map snapshot_file snapshots) future_days = Inr D
      \<and> (\<forall>s. dd_get D (snapshot_file s) = map DateStr
            (filter (\<lambda>d. applicable snapshots 59 d = Some s)
               [Min (set snapshots) .. Max (set snapshots) + int future_days]))
      \<and> (\<forall>k k' x. x \<in> set (dd_get D k) \<longrightarrow> x \<in> set (dd_get D k') \<longrightarrow> k = k')
      \<and> (\<forall>k. distinct (dd_get D k)))
    \<and> (\<forall>s d. applicable snapshots 59 d = Some s \<longleftrightarrow>
          s \<in> set snapshots \<and> s \<le> d \<and> d - s \<le> 59
          \<and> (\<forall>s' \<in> set snapshots. s' \<le> d \<longrightarrow> s' \<le> s))
    \<and> (\<forall>fd. \<exists>D.
          get_forward_fill_dict [snapshot_file (ymd 2024 1 1), snapshot_file (ymd 2024 3 1)] fd
            = Inr D
          \<and> dd_get D (snapshot_file (ymd 2024 1 1)) = map DateStr [ymd 2024 1 1 .. ymd 2024 2 29]
          \<and> dd_get D (snapshot_file (ymd 2024 3 1))
              = map DateStr [ymd 2024 3 1 .. ymd 2024 3 1 + min (int fd) 59])"
proof -
  from forward_fill_lists [OF assms, of future_days]
  have "\<exists>D. get_forward_fill_dict (map snapshot_file snapshots) future_days = Inr D
      \<and> (\<forall>s. dd_get D (snapshot_file s) = map DateStr
            (filter (\<lambda>d. applicable snapshots 59 d = Some s)
               [Min (set snapshots) .. Max (set snapshots) + int future_days]))
      \<and> (\<forall>k k' x. x \<in> set (dd_get D k) \<longrightarrow> x \<in> set (dd_get D k') \<longrightarrow> k = k')
      \<and> (\<forall>k. distinct (dd_get D k))"
    by blast
  moreover have "\<forall>s d. applicable snapshots 59 d = Some s \<longleftrightarrow>
          s \<in> set snapshots \<and> s \<le> d \<and> d - s \<le> 59
          \<and> (\<forall>s' \<in> set snapshots. s' \<le> d \<longrightarrow> s' \<le> s)"
    by (simp only: applicable_Some_iff) simp
  moreover note forward_fill_example
  ultimately show ?thesis by blast
qed

theorem forward_fill_assignment_witness:
  "[ymd 2024 1 1, ymd 2024 3 1] \<noteq> []
   \<and> (\<exists>D. get_forward_fill_dict [snapshot_file (ymd 2024 1 1), snapshot_file (ymd 2024 3 1)] 59
            = Inr D
        \<and> dd_get D (snapshot_file (ymd 2024 1 1)) = map DateStr [ymd 2024 1 1 .. ymd 2024 2 29]
        \<and> dd_get D (snapshot_file (ymd 2024 3 1))
            = map DateStr [ymd 2024 3 1 .. ymd 2024 3 1 + 59])"
proof -
  have ne: "[ymd 2024 1 1, ymd 2024 3 1] \<noteq> []" by simp
  have "\<forall>fd. \<exists>D.
          get_forward_fill_dict [snapshot_file (ymd 2024 1 1), snapshot_file (ymd 2024 3 1)] fd
            = Inr D
          \<and> dd_get D (snapshot_file (ymd 2024 1 1)) = map DateStr [ymd 2024 1 1 .. ymd 2024 2 29]
          \<and> dd_get D (snapshot_file (ymd 2024 3 1))
              = map DateStr [ymd 2024 3 1 .. ymd 2024 3 1 + min (int fd) 59]"
    using forward_fill_assignment [OF ne, of 59] by (elim conjE)
  from this [rule_format, of 59] ne show ?thesis by simp
qed

text \<open>
  C4. With snapshots only at 2024-01-01 and 2024-06-01 (152 days apart) the first
  snapshot's list stops at 2024-02-29, the 59 day limit, and no exception is raised; but
  the days from 2024-03-01 to 2024-05-31 are not left out of the plan: they are listed
  under the file name \<^verbatim>\<open>NaT.zip\<close>, built from the text of the missing date, in the
  forward-fill dictionary and in the work list that \<^verbatim>\<open>get_valid_file_dates_dict\<close> hands
  to the orchestrator.
\<close>

theorem forward_fill_gap_listed_under_NaT:
  "\<exists>D W. get_forward_fill_dict [snapshot_file (ymd 2024 1 1), snapshot_file (ymd 2024 6 1)] 0 = Inr D
    \<and> dd_get D (snapshot_file (ymd 2024 1 1)) = map DateStr [ymd 2024 1 1 .. ymd 2024 2 29]
    \<and> dd_get D (Zip NaT_str) = map DateStr [ymd 2024 3 1 .. ymd 2024 5 31]
    \<and> dd_get D (snapshot_file (ymd 2024 6 1)) = [DateStr (ymd 2024 6 1)]
    \<and> get_valid_file_dates_dict [snapshot_file (ymd 2024 1 1), snapshot_file (ymd 2024 6 1)]
          [] 0 True = Inr W
    \<and> dd_get W (Zip NaT_str) = map DateStr [ymd 2024 3 1 .. ymd 2024 5 31]"
proof -
  let ?ds = "[ymd 2024 1 1, ymd 2024 6 1]"
  have ne: "?ds \<noteq> []" by simp
  from forward_fill_work_list [OF ne, of 0 "[]"] obtain D W where
    g: "get_forward_fill_dict (map snapshot_file ?ds) 0 = Inr D"
    and v: "get_valid_file_dates_dict (map snapshot_file ?ds) [] 0 True = Inr W"
    and w: "\<And>k. dd_get W k = filter (\<lambda>x. \<not> has_output [] x) (dd_get D k)"
    by blast
  from forward_fill_long_gap obtain D' where
    g': "get_forward_fill_dict [snapshot_file (ymd 2024 1 1), snapshot_file (ymd 2024 6 1)] 0
          = Inr D'"
    and l: "dd_get D' (snapshot_file (ymd 2024 1 1)) = map DateStr [ymd 2024 1 1 .. ymd 2024 2 29]"
       "dd_get D' (Zip NaT_str) = map DateStr [ymd 2024 3 1 .. ymd 2024 5 31]"
       "dd_get D' (snapshot_file (ymd 2024 6 1)) = [DateStr (ymd 2024 6 1)]"
    by blast
  have DD: "D' = D" using g g' by simp
  have "dd_get W (Zip NaT_str) = dd_get D (Zip NaT_str)"
    unfolding w by (simp add: has_output_def)
  with g v l show ?thesis unfolding DD by auto
qed

section \<open>Properties of the Batch Orchestrator\<close>

lemma route_stats_of_one_trip:
  "map_sum id (tag_date ''day'') (route_stats_of line_externals one_trip_stats_tagged)
     = Inr one_route_stats_tagged"
  by code_simp

lemma trip_stats_of_one_trip:
  "map_sum id (tag_date ''day'') (compute_trip_stats_partridge line_externals one_trip_feed some_zones)
     = Inr one_trip_stats_tagged"
  by code_simp

lemma map_sum_Inr: "map_sum f g m = Inr y \<Longrightarrow> \<exists>x. m = Inr x \<and> g x = y"
  by (cases m) auto

lemmas orchestrator_defs = handle_gtfs_file_def handle_gtfs_date_def get_gtfs_file_def
  s3_download_def wrapped_def download_file_def load_feed_def read_local_feed_def
  trip_stats_part_def route_stats_part_def attribute_lookups_def default_delays_def
  any_exception_def Let_def

text \<open>
  The route builder returns a table with the columns of its last selection, so the lookups
  of the second \<^verbatim>\<open>logger.debug\<close> always succeed.
\<close>

lemma select_cols_columns: "select_cols df cs = Inr r \<Longrightarrow> columns r = cs"
  by (auto simp: select_cols_def split: option.splits)

lemma route_stats_of_columns:
  assumes "route_stats_of ext ts = Inr rs"
  shows "columns rs = route_stats_columns"
  using assms unfolding route_stats_of_def compute_route_stats_base_partridge_def
  by (elim exn_bind_Inr) (rule select_cols_columns)

lemma missing_column_None_iff: "missing_column df cs = None \<longleftrightarrow> set cs \<subseteq> set (columns df)"
proof -
  have "missing_column df cs = None \<longleftrightarrow> filter (\<lambda>c. c \<notin> set (columns df)) cs = []"
    by (cases "filter (\<lambda>c. c \<notin> set (columns df)) cs") (simp_all add: missing_column_def)
  then show ?thesis by (auto simp: filter_empty_conv)
qed

lemma columns_tag_date: "set (columns df) \<subseteq> set (columns (tag_date t df))"
  by (auto simp: tag_date_def set_column_def)

lemma route_stats_lookups:
  assumes "route_stats_of ext ts = Inr rs"
  shows "attribute_lookups (tag_date t rs)
           [''num_trips'', ''route_id'', ''start_zone'', ''agency_name''] = Inr ()"
proof -
  have "set [''num_trips'', ''route_id'', ''start_zone'', ''agency_name'']
          \<subseteq> set (columns rs)"
    by (simp add: route_stats_of_columns [OF assms] route_stats_columns_def)
  then have "missing_column (tag_date t rs)
      [''num_trips'', ''route_id'', ''start_zone'', ''agency_name''] = None"
    unfolding missing_column_None_iff using columns_tag_date [of rs t] by blast
  then show ?thesis by (simp add: attribute_lookups_def)
qed

lemma one_trip_stats_lookups:
  "missing_column one_trip_stats_tagged
     [''trip_id'', ''route_id'', ''start_zone'', ''agency_name''] = None"
  by (simp add: missing_column_def one_trip_stats_tagged_def)

lemma one_route_stats_lookups:
  "missing_column one_route_stats_tagged
     [''num_trips'', ''route_id'', ''start_zone'', ''agency_name''] = None"
  by (simp add: missing_column_def one_route_stats_tagged_def)

lemma handle_gtfs_date_cached:
  assumes "output_folder w (DateStr d, ''trip_stats'') = Some ts"
  shows "handle_gtfs_date sv (DateStr d) file w =
     (case missing_column ts [''trip_id'', ''route_id'', ''start_zone'', ''agency_name''] of
        Some c \<Rightarrow> (Inl (AttributeError c), w)
      | None \<Rightarrow>
          (case route_stats_of (gtfstk sv) ts of
             Inl e \<Rightarrow> (Inl e, w\<lparr>journal := journal w @ [RouteStatsComputed (DateStr d)]\<rparr>)
           | Inr rs \<Rightarrow>
               (Inr False,
                w\<lparr>journal := journal w @ [RouteStatsComputed (DateStr d)],
                  output_folder := (output_folder w)((DateStr d, ''route_stats'') \<mapsto>
                     tag_date (date_text sv (DateStr d)) rs)\<rparr>)))"
proof (cases "missing_column ts [''trip_id'', ''route_id'', ''start_zone'', ''agency_name'']")
  case (Some c)
  then show ?thesis using assms
    by (simp add: handle_gtfs_date_def route_stats_part_def attribute_lookups_def)
next
  case None
  show ?thesis
  proof (cases "route_stats_of (gtfstk sv) ts")
    case (Inl e)
    then show ?thesis using assms None
      by (simp add: handle_gtfs_date_def route_stats_part_def attribute_lookups_def Let_def)
  next
    case (Inr rs)
    then show ?thesis using assms None route_stats_lookups [OF Inr, of "date_text sv (DateStr d)"]
      by (simp add: handle_gtfs_date_def route_stats_part_def Let_def)
         (simp add: attribute_lookups_def)
  qed
qed

lemma handle_gtfs_date_cached_rerun:
  assumes t: "output_folder w (DateStr d, ''trip_stats'') = Some ts"
    and r: "handle_gtfs_date sv (DateStr d) file w = (Inr b, w1)"
  shows "b = False \<and> output_folder w1 (DateStr d, ''trip_stats'') = Some ts
     \<and> gtfs_folder w1 = gtfs_folder w \<and> bucket w1 = bucket w
     \<and> pending_failures w1 = pending_failures w
     \<and> journal w1 = journal w @ [RouteStatsComputed (DateStr d)]
     \<and> (\<exists>w2. handle_gtfs_date sv (DateStr d) file w1 = (Inr False, w2)
            \<and> output_folder w2 = output_folder w1)"
proof (cases "missing_column ts [''trip_id'', ''route_id'', ''start_zone'', ''agency_name'']")
  case (Some c)
  then show ?thesis using r by (simp add: handle_gtfs_date_cached [OF t])
next
  case None
  show ?thesis
  proof (cases "route_stats_of (gtfstk sv) ts")
    case (Inl e)
    then show ?thesis using r None by (simp add: handle_gtfs_date_cached [OF t])
  next
    case (Inr rs)
    let ?a = "tag_date (date_text sv (DateStr d)) rs"
    have w1: "w1 = w\<lparr>journal := journal w @ [RouteStatsComputed (DateStr d)],
               output_folder := (output_folder w)((DateStr d, ''route_stats'') \<mapsto> ?a)\<rparr>"
      and b: "b = False"
      using r Inr None by (simp_all add: handle_gtfs_date_cached [OF t])
    have t1: "output_folder w1 (DateStr d, ''trip_stats'') = Some ts"
      using t by (simp add: w1)
    have "handle_gtfs_date sv (DateStr d) file w1 =
        (Inr False, w1\<lparr>journal := journal w1 @ [RouteStatsComputed (DateStr d)],
               output_folder := (output_folder w1)((DateStr d, ''route_stats'') \<mapsto> ?a)\<rparr>)"
      by (simp add: handle_gtfs_date_cached [OF t1] Inr None)
    moreover have "(output_folder w1)((DateStr d, ''route_stats'') \<mapsto> ?a) = output_folder w1"
      by (simp add: w1)
    ultimately show ?thesis using b t1 by (auto simp: w1)
  qed
qed

text \<open>
  C1, as the code has it. For every work item whose trip artifact is persisted, the
  handler downloads nothing and does not run the trip builder: it reads the stored trip
  summaries, which stay as they are. When the stored table lacks one of the columns
  \<open>trip_id\<close>, \<open>route_id\<close>, \<open>start_zone\<close>, \<open>agency_name\<close>, the handler raises
  \<^verbatim>\<open>AttributeError\<close> for the first of them before the route builder runs, and nothing
  changes. Otherwise it runs the route builder on the stored table (in the journal) and,
  when that returns, writes the tagged result as the route artifact and returns
  \<open>False\<close>; an exception of the route builder leaves the folders unchanged. After a run
  that returned, running the handler again returns \<open>False\<close> and leaves the output folder
  unchanged.
\<close>

theorem handle_gtfs_date_reuses_trip_stats:
  assumes "output_folder w (DateStr d, ''trip_stats'') = Some ts"
  shows "handle_gtfs_date sv (DateStr d) file w =
     (case missing_column ts [''trip_id'', ''route_id'', ''start_zone'', ''agency_name''] of
        Some c \<Rightarrow> (Inl (AttributeError c), w)
      | None \<Rightarrow>
          (case route_stats_of (gtfstk sv) ts of
             Inl e \<Rightarrow> (Inl e, w\<lparr>journal := journal w @ [RouteStatsComputed (DateStr d)]\<rparr>)
           | Inr rs \<Rightarrow>
               (Inr False,
                w\<lparr>journal := journal w @ [RouteStatsComputed (DateStr d)],
                  output_folder := (output_folder w)((DateStr d, ''route_stats'') \<mapsto>
                     tag_date (date_text sv (DateStr d)) rs)\<rparr>)))
    \<and> (\<forall>b w1. handle_gtfs_date sv (DateStr d) file w = (Inr b, w1) \<longrightarrow>
          b = False \<and> output_folder w1 (DateStr d, ''trip_stats'') = Some ts
          \<and> gtfs_folder w1 = gtfs_folder w \<and> bucket w1 = bucket w
          \<and> pending_failures w1 = pending_failures w
          \<and> journal w1 = journal w @ [RouteStatsComputed (DateStr d)]
          \<and> (\<exists>w2. handle_gtfs_date sv (DateStr d) file w1 = (Inr False, w2)
                 \<and> output_folder w2 = output_folder w1))"
  using handle_gtfs_date_cached [OF assms, of sv "file"]
    handle_gtfs_date_cached_rerun [OF assms, of sv "file"]
  by blast

lemma trip_stats_persisted:
  "output_folder world_with_trip_stats (DateStr (ymd 2024 1 1), ''trip_stats'')
      = Some one_trip_stats_tagged"
  by (simp add: world_with_trip_stats_def)

lemma cached_run_example:
  "handle_gtfs_date line_services (DateStr (ymd 2024 1 1)) (snapshot_file (ymd 2024 1 1))
      world_with_trip_stats =
     (Inr False,
      world_with_trip_stats
        \<lparr>journal := [RouteStatsComputed (DateStr (ymd 2024 1 1))],
         output_folder := (output_folder world_with_trip_stats)
           ((DateStr (ymd 2024 1 1), ''route_stats'') \<mapsto> one_route_stats_tagged)\<rparr>)"
proof -
  from map_sum_Inr [OF route_stats_of_one_trip] obtain rs where
    rs: "route_stats_of line_externals one_trip_stats_tagged = Inr rs"
    and tg: "tag_date ''day'' rs = one_route_stats_tagged"
    by blast
  show ?thesis
    unfolding handle_gtfs_date_cached [OF trip_stats_persisted] one_trip_stats_lookups
    by (simp add: line_services_def rs tg) (simp add: world_with_trip_stats_def)
qed

theorem handle_gtfs_date_reuses_trip_stats_witness:
  "output_folder world_with_trip_stats (DateStr (ymd 2024 1 1), ''trip_stats'')
      = Some one_trip_stats_tagged
   \<and> fst (handle_gtfs_date line_services (DateStr (ymd 2024 1 1)) (snapshot_file (ymd 2024 1 1))
          world_with_trip_stats) = Inr False
   \<and> output_folder
        (snd (handle_gtfs_date line_services (DateStr (ymd 2024 1 1)) (snapshot_file (ymd 2024 1 1))
          (snd (handle_gtfs_date line_services (DateStr (ymd 2024 1 1))
             (snapshot_file (ymd 2024 1 1)) world_with_trip_stats))))
      = output_folder
        (snd (handle_gtfs_date line_services (DateStr (ymd 2024 1 1)) (snapshot_file (ymd 2024 1 1))
          world_with_trip_stats))"
proof -
  let ?h = "handle_gtfs_date line_services (DateStr (ymd 2024 1 1)) (snapshot_file (ymd 2024 1 1))"
  obtain w1 where r: "?h world_with_trip_stats = (Inr False, w1)"
    using cached_run_example by blast
  from handle_gtfs_date_reuses_trip_stats [OF trip_stats_persisted, of line_services
      "snapshot_file (ymd 2024 1 1)"] r
  obtain w2 where "?h w1 = (Inr False, w2)" and "output_folder w2 = output_folder w1"
    by blast
  with r trip_stats_persisted show ?thesis by simp
qed

text \<open>
  C1 as stated fails: with the trip artifact of 2024-01-01 persisted and no route artifact,
  the handler runs the route builder and the output folder changes, the route artifact
  being written.
\<close>

theorem handle_gtfs_date_recomputes_route_stats:
  "output_folder world_with_trip_stats (DateStr (ymd 2024 1 1), ''trip_stats'')
      = Some one_trip_stats_tagged
   \<and> fst (handle_gtfs_date line_services (DateStr (ymd 2024 1 1)) (snapshot_file (ymd 2024 1 1))
          world_with_trip_stats) = Inr False
   \<and> journal (snd (handle_gtfs_date line_services (DateStr (ymd 2024 1 1))
          (snapshot_file (ymd 2024 1 1)) world_with_trip_stats))
       = [RouteStatsComputed (DateStr (ymd 2024 1 1))]
   \<and> output_folder world_with_trip_stats (DateStr (ymd 2024 1 1), ''route_stats'') = None
   \<and> output_folder (snd (handle_gtfs_date line_services (DateStr (ymd 2024 1 1))
          (snapshot_file (ymd 2024 1 1)) world_with_trip_stats))
        (DateStr (ymd 2024 1 1), ''route_stats'') = Some one_route_stats_tagged"
  unfolding cached_run_example
  by (simp add: world_with_trip_stats_def)


text \<open>
  C9. With the deletion option on, a snapshot that is not in the local folder and is
  scheduled for the two dates 2024-01-01 and 2024-01-02 is downloaded for the first date
  and found locally for the second; the loop overwrites \<open>downloaded\<close> with the second
  date's \<open>False\<close>, and the downloaded file stays in the local folder. Scheduled for the
  first date alone, the same snapshot is removed.
\<close>

theorem downloaded_snapshot_kept_after_later_date:
  "fst (handle_gtfs_file line_services (snapshot_file (ymd 2024 1 1))
          [DateStr (ymd 2024 1 1), DateStr (ymd 2024 1 2)] True world_with_bucket) = Inr ()
   \<and> gtfs_folder world_with_bucket (snapshot_file (ymd 2024 1 1)) = None
   \<and> gtfs_folder (snd (handle_gtfs_file line_services (snapshot_file (ymd 2024 1 1))
          [DateStr (ymd 2024 1 1), DateStr (ymd 2024 1 2)] True world_with_bucket))
        (snapshot_file (ymd 2024 1 1)) = Some 1
   \<and> journal (snd (handle_gtfs_file line_services (snapshot_file (ymd 2024 1 1))
          [DateStr (ymd 2024 1 1), DateStr (ymd 2024 1 2)] True world_with_bucket))
       = [RetryEvent Attempt,
          TripStatsComputed (DateStr (ymd 2024 1 1)), RouteStatsComputed (DateStr (ymd 2024 1 1)),
          TripStatsComputed (DateStr (ymd 2024 1 2)), RouteStatsComputed (DateStr (ymd 2024 1 2))]
   \<and> fst (handle_gtfs_file line_services (snapshot_file (ymd 2024 1 1))
          [DateStr (ymd 2024 1 1)] True world_with_bucket) = Inr ()
   \<and> gtfs_folder (snd (handle_gtfs_file line_services (snapshot_file (ymd 2024 1 1))
          [DateStr (ymd 2024 1 1)] True world_with_bucket))
        (snapshot_file (ymd 2024 1 1)) = None"
proof -
  from map_sum_Inr [OF route_stats_of_one_trip] obtain rs where
    rs: "route_stats_of line_externals one_trip_stats_tagged = Inr rs"
    and tg: "tag_date ''day'' rs = one_route_stats_tagged"
    by blast
  from map_sum_Inr [OF trip_stats_of_one_trip] obtain ts where
    ts: "compute_trip_stats_partridge line_externals one_trip_feed some_zones = Inr ts"
    and tt: "tag_date ''day'' ts = one_trip_stats_tagged"
    by blast
  have d2: "ymd 2024 1 2 = 738887"
    by (simp add: ymd_def days_before_year_def days_before_month_def is_leap_def)
  show ?thesis
    by (simp add: d2 orchestrator_defs line_services_def world_with_bucket_def snapshot_file_def
        ymd_values rs tg ts tt one_trip_stats_lookups one_route_stats_lookups)
qed


end
